theory Spec2Isabelle
  imports Complex_Main
begin

section \<open>Strings and numbers as the Python code uses them\<close>

text \<open>
  A Python \<open>str\<close> is modelled as a \<open>string\<close>; one \<open>char\<close> stands for one code point
  below 256. \<open>bytes\<close> values are lists of \<open>char\<close> as well.
\<close>

type_synonym bytes = "char list"

text \<open>\<open>str.isspace\<close> on the code points below 256.\<close>

definition is_space :: "char \<Rightarrow> bool" where
  "is_space c = (c \<in> set [CHR 0x09, CHR 0x0A, CHR 0x0B, CHR 0x0C, CHR 0x0D,
                            CHR 0x1C, CHR 0x1D, CHR 0x1E, CHR 0x1F, CHR 0x20,
                            CHR 0x85, CHR 0xA0])"

text \<open>\<open>str.strip()\<close>: leading and trailing whitespace removed.\<close>

definition strip :: "string \<Rightarrow> string" where
  "strip s = rev (dropWhile is_space (rev (dropWhile is_space s)))"

text \<open>\<open>str(n)\<close> for a natural number and for an integer.\<close>

definition digit_char :: "nat \<Rightarrow> char" where
  "digit_char d = ''0123456789'' ! d"

function str_nat :: "nat \<Rightarrow> string" where
  "str_nat n = (if n < 10 then [digit_char n] else str_nat (n div 10) @ [digit_char (n mod 10)])"
  by pat_completeness auto
termination
  by (relation "measure id") auto

declare str_nat.simps [simp del]

definition str_int :: "int \<Rightarrow> string" where
  "str_int i = (if i < 0 then CHR ''-'' # str_nat (nat (- i)) else str_nat (nat i))"

section \<open>models.py: enumerations\<close>

datatype Voice = ALLOY | ECHO | FABLE | ONYX | NOVA | SHIMMER

datatype AudioFormat = MP3 | OPUS | AAC | FLAC

datatype TTSModel = TTS_1 | TTS_1_HD

fun Voice_value :: "Voice \<Rightarrow> string" where
  "Voice_value ALLOY = ''alloy''"
| "Voice_value ECHO = ''echo''"
| "Voice_value FABLE = ''fable''"
| "Voice_value ONYX = ''onyx''"
| "Voice_value NOVA = ''nova''"
| "Voice_value SHIMMER = ''shimmer''"

fun AudioFormat_value :: "AudioFormat \<Rightarrow> string" where
  "AudioFormat_value MP3 = ''mp3''"
| "AudioFormat_value OPUS = ''opus''"
| "AudioFormat_value AAC = ''aac''"
| "AudioFormat_value FLAC = ''flac''"

fun TTSModel_value :: "TTSModel \<Rightarrow> string" where
  "TTSModel_value TTS_1 = ''tts-1''"
| "TTSModel_value TTS_1_HD = ''tts-1-hd''"

definition all_voices :: "Voice list" where
  "all_voices = [ALLOY, ECHO, FABLE, ONYX, NOVA, SHIMMER]"

definition all_formats :: "AudioFormat list" where
  "all_formats = [MP3, OPUS, AAC, FLAC]"

definition all_models :: "TTSModel list" where
  "all_models = [TTS_1, TTS_1_HD]"

text \<open>Looking an enumeration member up by its value, as pydantic does for an enum field.\<close>

definition enum_lookup :: "('a \<Rightarrow> string) \<Rightarrow> 'a list \<Rightarrow> string \<Rightarrow> 'a option" where
  "enum_lookup val members s = find (\<lambda>m. val m = s) members"

section \<open>exceptions.py\<close>

text \<open>
  One error of a pydantic \<open>ValidationError\<close>: the field, the message and the error type.
\<close>

record field_error =
  err_loc :: string
  err_msg :: string
  err_type :: string

text \<open>
  The exception classes of \<open>exceptions.py\<close> with the fields their \<open>__str__\<close> reads,
  pydantic's \<open>ValidationError\<close> (the model's name and its errors), and any other
  exception, of which only \<open>str(e)\<close> is ever used.
\<close>

datatype exn =
    TTSAgentError string "string option"
  | TTSConfigError string "string option"
  | TTSAPIError string "nat option" "string option"
  | TTSValidationError string "string option"
  | TTSFileError string "string option"
  | ValidationError string "field_error list"
  | OtherException string

definition join_with :: "string \<Rightarrow> string list \<Rightarrow> string" where
  "join_with sep xs = (case xs of [] \<Rightarrow> [] | y # ys \<Rightarrow> y @ concat (map (\<lambda>z. sep @ z) ys))"

definition display_error :: "field_error \<Rightarrow> string" where
  "display_error e = err_loc e @ [CHR 0x0A] @ ''  '' @ err_msg e @ '' (type='' @ err_type e @ '')''"

text \<open>\<open>str(e)\<close>, following each class's \<open>__str__\<close>.\<close>

fun str_exn :: "exn \<Rightarrow> string" where
  "str_exn (TTSAgentError m code) =
     (case code of Some c \<Rightarrow> (if c \<noteq> [] then ''['' @ c @ ''] '' @ m else m) | None \<Rightarrow> m)"
| "str_exn (TTSConfigError m key) =
     (case key of
        Some k \<Rightarrow> (if k \<noteq> [] then ''[CONFIG_ERROR] Configuration error for '' @ [CHR 0x27] @ k @ [CHR 0x27] @ '': '' @ m
                   else ''[CONFIG_ERROR] '' @ m)
      | None \<Rightarrow> ''[CONFIG_ERROR] '' @ m)"
| "str_exn (TTSAPIError m status api_type) =
     (let error_info =
            (case status of Some c \<Rightarrow> (if c \<noteq> 0 then [''Status: '' @ str_nat c] else []) | None \<Rightarrow> []) @
            (case api_type of Some t \<Rightarrow> (if t \<noteq> [] then [''Type: '' @ t] else []) | None \<Rightarrow> []);
          error_details = (if error_info \<noteq> [] then '' ('' @ join_with '', '' error_info @ '')'' else [])
      in ''[API_ERROR] '' @ m @ error_details)"
| "str_exn (TTSValidationError m field) =
     (case field of
        Some f \<Rightarrow> (if f \<noteq> [] then ''[VALIDATION_ERROR] Validation error for field '' @ [CHR 0x27] @ f @ [CHR 0x27] @ '': '' @ m
                   else ''[VALIDATION_ERROR] '' @ m)
      | None \<Rightarrow> ''[VALIDATION_ERROR] '' @ m)"
| "str_exn (TTSFileError m file_path) =
     (case file_path of
        Some p \<Rightarrow> (if p \<noteq> [] then ''[FILE_ERROR] File operation error for '' @ [CHR 0x27] @ p @ [CHR 0x27] @ '': '' @ m
                   else ''[FILE_ERROR] '' @ m)
      | None \<Rightarrow> ''[FILE_ERROR] '' @ m)"
| "str_exn (ValidationError model_name errs) =
     str_nat (length errs) @ '' validation error'' @ (if length errs = 1 then [] else ''s'') @
     '' for '' @ model_name @ [CHR 0x0A] @ join_with [CHR 0x0A] (map display_error errs)"
| "str_exn (OtherException m) = m"

section \<open>models.py: TTSRequest\<close>

text \<open>The keyword arguments given to \<open>TTSRequest(...)\<close>, before validation.\<close>

record TTSRequest_args =
  arg_text :: string
  arg_voice :: string
  arg_model :: string
  arg_format :: string
  arg_speed :: real

record TTSRequest =
  req_text :: string
  req_voice :: Voice
  req_model :: TTSModel
  req_format :: AudioFormat
  req_speed :: real

text \<open>The \<open>@validator('text')\<close> of the class.\<close>

definition validate_text :: "string \<Rightarrow> field_error + string" where
  "validate_text v =
     (if strip v = [] then
        Inl \<lparr>err_loc = ''text'', err_msg = ''Text cannot be empty or only whitespace'', err_type = ''value_error''\<rparr>
      else Inr (strip v))"

text \<open>The \<open>@validator('speed')\<close> of the class.\<close>

definition validate_speed :: "real \<Rightarrow> field_error + real" where
  "validate_speed v =
     (if \<not> (0.25 \<le> v \<and> v \<le> 4.0) then
        Inl \<lparr>err_loc = ''speed'', err_msg = ''Speed must be between 0.25 and 4.0'', err_type = ''value_error''\<rparr>
      else Inr v)"

text \<open>
  The field \<open>text: str = Field(..., min_length=1, max_length=4096)\<close>: pydantic checks the
  declared length bounds on the value as given, and runs the class's validator on a value
  that passed them.
\<close>

definition field_text :: "string \<Rightarrow> field_error + string" where
  "field_text v =
     (if length v < 1 then
        Inl \<lparr>err_loc = ''text'', err_msg = ''ensure this value has at least 1 characters'',
             err_type = ''value_error.any_str.min_length; limit_value=1''\<rparr>
      else if length v > 4096 then
        Inl \<lparr>err_loc = ''text'', err_msg = ''ensure this value has at most 4096 characters'',
             err_type = ''value_error.any_str.max_length; limit_value=4096''\<rparr>
      else validate_text v)"

text \<open>The field \<open>speed: float = Field(default=1.0, ge=0.25, le=4.0)\<close>, then its validator.\<close>

definition field_speed :: "real \<Rightarrow> field_error + real" where
  "field_speed v =
     (if \<not> v \<ge> 0.25 then
        Inl \<lparr>err_loc = ''speed'', err_msg = ''ensure this value is greater than or equal to 0.25'',
             err_type = ''value_error.number.not_ge; limit_value=0.25''\<rparr>
      else if \<not> v \<le> 4.0 then
        Inl \<lparr>err_loc = ''speed'', err_msg = ''ensure this value is less than or equal to 4.0'',
             err_type = ''value_error.number.not_le; limit_value=4.0''\<rparr>
      else validate_speed v)"

text \<open>An enumeration field: the value must be the value of a member.\<close>

definition field_enum :: "string \<Rightarrow> ('a \<Rightarrow> string) \<Rightarrow> 'a list \<Rightarrow> string \<Rightarrow> field_error + 'a" where
  "field_enum name val members s =
     (case enum_lookup val members s of
        Some m \<Rightarrow> Inr m
      | None \<Rightarrow>
          Inl \<lparr>err_loc = name,
               err_msg = ''value is not a valid enumeration member; permitted: '' @
                     join_with '', '' (map (\<lambda>m. [CHR 0x27] @ val m @ [CHR 0x27]) members),
               err_type = ''type_error.enum''\<rparr>)"

definition errors_of :: "field_error + 'a \<Rightarrow> field_error list" where
  "errors_of r = (case r of Inl e \<Rightarrow> [e] | Inr _ \<Rightarrow> [])"

text \<open>
  \<open>TTSRequest(text=..., voice=..., model=..., format=..., speed=...)\<close>: every field is
  validated, in the order of declaration, and the errors of all fields are raised together
  as one \<open>ValidationError\<close>.
\<close>

definition TTSRequest_new :: "TTSRequest_args \<Rightarrow> exn + TTSRequest" where
  "TTSRequest_new a =
     (let rt = field_text (arg_text a);
          rv = field_enum ''voice'' Voice_value all_voices (arg_voice a);
          rm = field_enum ''model'' TTSModel_value all_models (arg_model a);
          rf = field_enum ''format'' AudioFormat_value all_formats (arg_format a);
          rs = field_speed (arg_speed a)
      in case (rt, rv, rm, rf, rs) of
           (Inr t, Inr v, Inr m, Inr f, Inr s) \<Rightarrow>
             Inr \<lparr>req_text = t, req_voice = v, req_model = m, req_format = f, req_speed = s\<rparr>
         | _ \<Rightarrow>
             Inl (ValidationError ''TTSRequest''
                    (errors_of rt @ errors_of rv @ errors_of rm @ errors_of rf @ errors_of rs)))"

section \<open>models.py: TTSResponse and BatchTTSResponse\<close>

text \<open>
  A path is the string that \<open>str(path)\<close> gives. \<open>Path(s)\<close> reads a string as
  \<open>pathlib\<close> does on a POSIX system: the root is \<open>/\<close> for a string that starts with a
  slash (\<open>//\<close> for one that starts with exactly two), the components are the pieces
  between the slashes, without the empty ones and without the \<open>.\<close> ones, and the string
  of the path is the root followed by the components joined by slashes, or \<open>.\<close> when
  there is neither root nor component.
\<close>

type_synonym path = string

text \<open>\<open>s.split(sep)\<close> for a separator of one character.\<close>

fun split_on :: "char \<Rightarrow> string \<Rightarrow> string list" where
  "split_on sep [] = [[]]"
| "split_on sep (c # cs) =
     (if c = sep then [] # split_on sep cs
      else (case split_on sep cs of [] \<Rightarrow> [[c]] | x # xs \<Rightarrow> (c # x) # xs))"

definition path_root :: "string \<Rightarrow> string" where
  "path_root s =
     (if take 2 s = ''//'' \<and> take 3 s \<noteq> ''///'' then ''//''
      else if take 1 s = ''/'' then ''/''
      else [])"

definition path_parts :: "string \<Rightarrow> string list" where
  "path_parts s = filter (\<lambda>x. x \<noteq> [] \<and> x \<noteq> ''.'') (split_on CHR ''/'' s)"

definition path_of_parts :: "string \<Rightarrow> string list \<Rightarrow> path" where
  "path_of_parts rt parts =
     (if rt = [] \<and> parts = [] then ''.'' else rt @ join_with ''/'' parts)"

definition Path :: "string \<Rightarrow> path" where
  "Path s = path_of_parts (path_root s) (path_parts s)"

text \<open>
  \<open>p / name\<close>: the components of the name are appended to those of the path; a name
  with a root replaces the path.
\<close>

definition path_join :: "path \<Rightarrow> string \<Rightarrow> path" where
  "path_join p name =
     (if path_root name \<noteq> [] then Path name
      else path_of_parts (path_root p) (path_parts p @ path_parts name))"

text \<open>
  \<open>path.name\<close> is the last component (empty when there is none); \<open>path.suffix\<close> starts
  at the last dot of the name, unless that dot is the first or the last character of the
  name; \<open>path.with_suffix(suffix)\<close> puts the suffix in the place of the old one, and raises
  a \<open>ValueError\<close> for a path with an empty name.
\<close>

definition path_name :: "path \<Rightarrow> string" where
  "path_name p = (if path_parts p = [] then [] else last (path_parts p))"

definition path_suffix :: "path \<Rightarrow> string" where
  "path_suffix p =
     (let name = path_name p;
          after = rev (takeWhile (\<lambda>c. c \<noteq> CHR ''.'') (rev name))
      in if length after < length name \<and> after \<noteq> [] \<and> Suc (length after) < length name
         then CHR ''.'' # after else [])"

definition with_suffix :: "path \<Rightarrow> string \<Rightarrow> exn + path" where
  "with_suffix p suffix =
     (if path_name p = [] then
        Inl (OtherException (''PosixPath('' @ [CHR 0x27] @ p @ [CHR 0x27] @ '') has an empty name''))
      else
        Inr (path_of_parts (path_root p)
               (butlast (path_parts p) @
                [take (length (path_name p) - length (path_suffix p)) (path_name p) @ suffix])))"

text \<open>
  The first two steps of both functions that save audio,
  \<open>output_path = Path(output_path)\<close> and then, for a path without a suffix,
  \<open>output_path = output_path.with_suffix(f".{format}")\<close>.
\<close>

definition ensure_suffix :: "string \<Rightarrow> string \<Rightarrow> exn + path" where
  "ensure_suffix output_path fmt =
     (if path_suffix (Path output_path) = [] then with_suffix (Path output_path) (''.'' @ fmt)
      else Inr (Path output_path))"

text \<open>A value stored in the \<open>metadata\<close> dictionary of a response.\<close>

datatype meta_value = MStr string | MReal real | MInt int | MBool bool

record TTSResponse =
  success :: bool
  audio_data :: "bytes option"
  file_path :: "path option"
  duration :: "real option"
  file_size :: "nat option"
  metadata :: "(string \<times> meta_value) list"
  error :: "string option"

text \<open>\<open>TTSResponse(success=False, error=m)\<close>: every other field takes its default.\<close>

definition failed_response :: "string \<Rightarrow> TTSResponse" where
  "failed_response m =
     \<lparr>success = False, audio_data = None, file_path = None, duration = None,
      file_size = None, metadata = [], error = Some m\<rparr>"

record BatchTTSResponse =
  total_requests :: int
  successful :: int
  failed :: int
  results :: "TTSResponse list"
  processing_time :: real
  errors :: "string list"

text \<open>
  The \<open>@root_validator\<close> of \<open>BatchTTSResponse\<close>. A \<open>ValueError\<close> raised in it leaves the
  constructor as a \<open>ValidationError\<close> on \<open>__root__\<close>.
\<close>

definition validate_counts :: "BatchTTSResponse \<Rightarrow> exn + BatchTTSResponse" where
  "validate_counts values =
     (if successful values + failed values \<noteq> total_requests values then
        Inl (ValidationError ''BatchTTSResponse''
               [\<lparr>err_loc = ''__root__'',
                 err_msg = ''Successful and failed counts must equal total requests'',
                 err_type = ''value_error''\<rparr>])
      else if int (length (results values)) \<noteq> total_requests values then
        Inl (ValidationError ''BatchTTSResponse''
               [\<lparr>err_loc = ''__root__'',
                 err_msg = ''Number of results must equal total requests'',
                 err_type = ''value_error''\<rparr>])
      else Inr values)"

definition BatchTTSResponse_new ::
  "int \<Rightarrow> int \<Rightarrow> int \<Rightarrow> TTSResponse list \<Rightarrow> real \<Rightarrow> string list \<Rightarrow> exn + BatchTTSResponse" where
  "BatchTTSResponse_new n_total n_ok n_failed res time errs =
     validate_counts \<lparr>total_requests = n_total, successful = n_ok, failed = n_failed,
                      results = res, processing_time = time, errors = errs\<rparr>"

section \<open>Effects\<close>

text \<open>
  What one item's execution does to the outside is recorded, in order, as a list of
  events: a call of the agent's \<open>generate_speech\<close> (with the 0-based number of the
  attempt), a call of the remote service by the agent's client, a sleep (in seconds), a
  directory created, a file written, a chunk handed to the callback, a chunk yielded, and
  the log records of level WARNING and ERROR (records of lower levels are left out).
\<close>

datatype event =
    Attempt nat
  | Synthesize TTSRequest
  | Sleep real
  | Mkdir path
  | FileWrite path bytes
  | Callback bytes
  | Yield bytes
  | LogWarning string
  | LogError string

text \<open>
  The state threaded through one item: how many calls of the remote service the item has
  made, and its events so far.
\<close>

record item_state =
  calls :: nat
  trace :: "event list"

definition init_state :: item_state where
  "init_state = \<lparr>calls = 0, trace = []\<rparr>"

definition emit :: "event \<Rightarrow> item_state \<Rightarrow> item_state" where
  "emit e st = st\<lparr>trace := trace st @ [e]\<rparr>"

text \<open>
  The outside world of one item: whether the agent has its client; \<open>client_call n request\<close>,
  what the item's \<open>n\<close>-th call (0-based) of the remote service does
  (\<open>client.audio.speech.create\<close> and the reading of its bytes): it raises, or returns the
  audio; and \<open>fs_error p\<close>, the message of the error with which writing the file \<open>p\<close> (or
  creating its directory) fails, if it does.
\<close>

record env =
  client_ready :: bool
  client_call :: "nat \<Rightarrow> TTSRequest \<Rightarrow> exn + bytes"
  fs_error :: "path \<Rightarrow> string option"

section \<open>core.py: TTSAgent\<close>

text \<open>
  The fields of the agent's configuration that the agent reads; \<open>TTSConfig\<close> admits no
  negative \<open>max_retries\<close>.
\<close>

record TTSConfig =
  max_retries :: nat
  rate_limit_delay :: real
  default_voice :: Voice
  default_model :: TTSModel
  default_format :: AudioFormat
  default_speed :: real

text \<open>
  \<open>v or d\<close> for an optional string and for an optional number: \<open>None\<close>, the empty string
  and zero are false.
\<close>

definition or_str :: "string option \<Rightarrow> string \<Rightarrow> string" where
  "or_str v d = (case v of Some s \<Rightarrow> (if s \<noteq> [] then s else d) | None \<Rightarrow> d)"

definition or_speed :: "real option \<Rightarrow> real \<Rightarrow> real" where
  "or_speed v d = (case v of Some x \<Rightarrow> (if x \<noteq> 0 then x else d) | None \<Rightarrow> d)"

text \<open>
  The arguments with which \<open>generate_speech\<close> and \<open>stream_speech\<close> build their
  request: each optional argument, or the default of the configuration.
\<close>

definition request_args ::
  "TTSConfig \<Rightarrow> string \<Rightarrow> string option \<Rightarrow> string option \<Rightarrow> string option \<Rightarrow> real option \<Rightarrow>
   TTSRequest_args" where
  "request_args config text_arg voice_arg model_arg format_arg speed_arg =
     \<lparr>arg_text = text_arg,
      arg_voice = or_str voice_arg (Voice_value (default_voice config)),
      arg_model = or_str model_arg (TTSModel_value (default_model config)),
      arg_format = or_str format_arg (AudioFormat_value (default_format config)),
      arg_speed = or_speed speed_arg (default_speed config)\<rparr>"

text \<open>
  The loop \<open>for attempt in range(self.config.max_retries + 1)\<close> of \<open>_call_openai_api\<close>,
  from the attempt with the given number on: the remote service is called; a failure is
  followed by a sleep and the next attempt, and after the last attempt by a
  \<open>TTSAPIError\<close>.
\<close>

function api_attempts ::
  "TTSConfig \<Rightarrow> env \<Rightarrow> TTSRequest \<Rightarrow> nat \<Rightarrow> item_state \<Rightarrow> (exn + bytes) \<times> item_state" where
  "api_attempts config w request attempt st =
     (case client_call w (calls st) request of
        Inr audio \<Rightarrow>
          (Inr audio, emit (Synthesize request) (st\<lparr>calls := Suc (calls st)\<rparr>))
      | Inl e \<Rightarrow>
          if attempt < max_retries config then
            api_attempts config w request (Suc attempt)
              (emit (Sleep (rate_limit_delay config * real (attempt + 1)))
                 (emit (LogWarning (''API call failed (attempt '' @ str_nat (attempt + 1) @
                                    ''), retrying: '' @ str_exn e))
                    (emit (Synthesize request) (st\<lparr>calls := Suc (calls st)\<rparr>))))
          else
            (Inl (TTSAPIError (''API call failed after '' @ str_nat (max_retries config + 1) @
                               '' attempts: '' @ str_exn e) None None),
             emit (Synthesize request) (st\<lparr>calls := Suc (calls st)\<rparr>)))"
  by pat_completeness auto
termination
  by (relation "measure (\<lambda>(config, w, request, attempt, st). max_retries config - attempt)") auto

declare api_attempts.simps [simp del]

text \<open>
  \<open>_call_openai_api\<close>: without a client a \<open>TTSConfigError\<close> is raised; otherwise the loop
  runs from attempt 0.
\<close>

definition call_openai_api ::
  "TTSConfig \<Rightarrow> env \<Rightarrow> TTSRequest \<Rightarrow> item_state \<Rightarrow> (exn + bytes) \<times> item_state" where
  "call_openai_api config w request st =
     (if \<not> client_ready w then
        (Inl (TTSConfigError ''OpenAI client not initialized'' None), st)
      else api_attempts config w request 0 st)"

text \<open>Writing the file: it fails as a whole, or the file is written.\<close>

definition write_file :: "env \<Rightarrow> bytes \<Rightarrow> path \<Rightarrow> item_state \<Rightarrow> (exn + path) \<times> item_state" where
  "write_file w audio p st =
     (case fs_error w p of
        Some m \<Rightarrow> (Inl (OtherException m), st)
      | None \<Rightarrow> (Inr p, emit (FileWrite p audio) st))"

text \<open>
  \<open>_save_audio_file\<close>: the extension is added when the path has none; any exception becomes
  a \<open>TTSFileError\<close> that names the path as it is at that moment.
\<close>

definition save_audio_file ::
  "env \<Rightarrow> bytes \<Rightarrow> string \<Rightarrow> string \<Rightarrow> item_state \<Rightarrow> (exn + path) \<times> item_state" where
  "save_audio_file w audio output_path fmt st =
     (case ensure_suffix output_path fmt of
        Inl e \<Rightarrow>
          (Inl (TTSFileError (''Failed to save audio file: '' @ str_exn e)
                  (Some (Path output_path))), st)
      | Inr p \<Rightarrow>
          (case write_file w audio p st of
             (Inl e, st1) \<Rightarrow>
               (Inl (TTSFileError (''Failed to save audio file: '' @ str_exn e) (Some p)), st1)
           | (Inr saved, st1) \<Rightarrow> (Inr saved, st1)))"

text \<open>
  The three \<open>except\<close> clauses of \<open>generate_speech\<close>: a \<open>TTSValidationError\<close> and a
  \<open>TTSAPIError\<close> are raised again, any other exception is logged and becomes a failed
  response.
\<close>

definition except_generate_speech :: "exn \<Rightarrow> item_state \<Rightarrow> (exn + TTSResponse) \<times> item_state" where
  "except_generate_speech e st =
     (case e of
        TTSValidationError _ _ \<Rightarrow> (Inl e, st)
      | TTSAPIError _ _ _ \<Rightarrow> (Inl e, st)
      | _ \<Rightarrow>
          (Inr (failed_response (''Unexpected error: '' @ str_exn e)),
           emit (LogError (''Unexpected error during speech generation: '' @ str_exn e)) st))"

text \<open>
  \<open>TTSAgent.generate_speech\<close>. The voice, model and format arrive as the values of the
  enumerations (the strings); the output path is a \<open>Path\<close> or a string, false when it is
  absent or the empty string.
\<close>

definition generate_speech ::
  "TTSConfig \<Rightarrow> env \<Rightarrow> string \<Rightarrow> string option \<Rightarrow> string option \<Rightarrow> string option \<Rightarrow>
   real option \<Rightarrow> path option \<Rightarrow> item_state \<Rightarrow> (exn + TTSResponse) \<times> item_state" where
  "generate_speech config w text_arg voice_arg model_arg format_arg speed_arg output_path st =
     (case TTSRequest_new (request_args config text_arg voice_arg model_arg format_arg speed_arg) of
        Inl e \<Rightarrow> except_generate_speech e st
      | Inr request \<Rightarrow>
          (case call_openai_api config w request st of
             (Inl e, st1) \<Rightarrow> except_generate_speech e st1
           | (Inr audio, st1) \<Rightarrow>
               (let response =
                      \<lparr>success = True, audio_data = Some audio, file_path = None, duration = None,
                       file_size = (if audio \<noteq> [] then Some (length audio) else None),
                       metadata =
                         [(''voice'', MStr (Voice_value (req_voice request))),
                          (''model'', MStr (TTSModel_value (req_model request))),
                          (''format'', MStr (AudioFormat_value (req_format request))),
                          (''speed'', MReal (req_speed request)),
                          (''text_length'', MInt (int (length text_arg)))],
                       error = None\<rparr>
                in if or_str output_path [] \<noteq> [] then
                     (case save_audio_file w audio (or_str output_path [])
                             (AudioFormat_value (req_format request)) st1 of
                        (Inl e, st2) \<Rightarrow> except_generate_speech e st2
                      | (Inr saved_path, st2) \<Rightarrow> (Inr (response\<lparr>file_path := Some saved_path\<rparr>), st2))
                   else (Inr response, st1))))"

section \<open>batch.py: BatchProcessor\<close>

text \<open>
  The agent a \<open>BatchProcessor\<close> is built with, seen through its \<open>generate_speech\<close>:
  text, voice, model, format, speed and output path, on the item's state.
\<close>

type_synonym agent =
  "string \<Rightarrow> string option \<Rightarrow> string option \<Rightarrow> string option \<Rightarrow> real option \<Rightarrow>
   path option \<Rightarrow> item_state \<Rightarrow> (exn + TTSResponse) \<times> item_state"

definition str_opt :: "string option \<Rightarrow> string" where
  "str_opt v = (case v of Some s \<Rightarrow> s | None \<Rightarrow> ''None'')"

text \<open>
  The file name of an item, \<open>tts_{hash(request.text) % 1000000}.{request.format}\<close>, under
  the output directory; \<open>hash\<close> is Python's, taken as given.
\<close>

definition item_output_path :: "(string \<Rightarrow> int) \<Rightarrow> TTSRequest \<Rightarrow> path option \<Rightarrow> path option" where
  "item_output_path hash_fn request output_directory =
     (case output_directory of
        None \<Rightarrow> None
      | Some d \<Rightarrow>
          Some (path_join d (''tts_'' @ str_int (hash_fn (req_text request) mod 1000000) @ ''.'' @
                             AudioFormat_value (req_format request))))"

text \<open>
  The loop \<open>for attempt in range(retry_attempts + 1)\<close> of \<open>_process_single_request\<close>, over
  the attempts still to make; \<open>call\<close> is the call of \<open>generate_speech\<close> with the item's
  arguments. The code after the loop is the case of no attempt left.
\<close>

fun process_attempts ::
  "(item_state \<Rightarrow> (exn + TTSResponse) \<times> item_state) \<Rightarrow> int \<Rightarrow> nat list \<Rightarrow> item_state \<Rightarrow>
   TTSResponse \<times> item_state" where
  "process_attempts call retry_attempts [] st =
     (failed_response ''Unexpected error in retry logic'', st)"
| "process_attempts call retry_attempts (attempt # rest) st =
     (case call (emit (Attempt attempt) st) of
        (Inr response, st1) \<Rightarrow>
          if success response then (response, st1)
          else if int attempt < retry_attempts then
            process_attempts call retry_attempts rest
              (emit (Sleep (1.0 * real (attempt + 1)))
                 (emit (LogWarning (''Request failed (attempt '' @ str_nat (attempt + 1) @
                                    ''), retrying: '' @ str_opt (error response))) st1))
          else
            (response,
             emit (LogError (''Request failed after '' @ str_int (retry_attempts + 1) @
                             '' attempts'')) st1)
      | (Inl e, st1) \<Rightarrow>
          if int attempt < retry_attempts then
            process_attempts call retry_attempts rest
              (emit (Sleep (1.0 * real (attempt + 1)))
                 (emit (LogWarning (''Request error (attempt '' @ str_nat (attempt + 1) @
                                    ''), retrying: '' @ str_exn e)) st1))
          else
            (failed_response (''Failed after '' @ str_int (retry_attempts + 1) @
                              '' attempts: '' @ str_exn e),
             emit (LogError (''Request failed after '' @ str_int (retry_attempts + 1) @
                             '' attempts: '' @ str_exn e)) st1))"

text \<open>
  \<open>_process_single_request\<close>. The semaphore and the throttler delay the item and change
  nothing else; they are not part of the model.
\<close>

definition process_single_request ::
  "agent \<Rightarrow> (string \<Rightarrow> int) \<Rightarrow> TTSRequest \<Rightarrow> path option \<Rightarrow> int \<Rightarrow> item_state \<Rightarrow>
   TTSResponse \<times> item_state" where
  "process_single_request ag hash_fn request output_directory retry_attempts st =
     process_attempts
       (ag (req_text request) (Some (Voice_value (req_voice request)))
           (Some (TTSModel_value (req_model request)))
           (Some (AudioFormat_value (req_format request)))
           (Some (req_speed request))
           (item_output_path hash_fn request output_directory))
       retry_attempts [0..<nat (retry_attempts + 1)] st"

text \<open>
  What \<open>generate_speech\<close> validates when \<open>_process_single_request\<close> calls it for a
  request: the request built again from the fields of the item's request.
\<close>

definition revalidate :: "TTSConfig \<Rightarrow> TTSRequest \<Rightarrow> exn + TTSRequest" where
  "revalidate config request =
     TTSRequest_new
       (request_args config (req_text request) (Some (Voice_value (req_voice request)))
          (Some (TTSModel_value (req_model request)))
          (Some (AudioFormat_value (req_format request)))
          (Some (req_speed request)))"

text \<open>
  What \<open>asyncio.gather(*tasks, return_exceptions=True)\<close> holds for one task: an exception,
  the response the task returned, or anything else (neither an \<open>Exception\<close> nor a
  \<open>TTSResponse\<close>).
\<close>

datatype task_result = Raised exn | Returned TTSResponse | OtherValue

text \<open>
  \<open>asyncio.gather\<close>: the tasks finish in the order of their finishing times, and the
  result of each is stored under the task's index; the list returned is read in the order
  of the tasks.
\<close>

definition gather :: "(nat \<Rightarrow> nat) \<Rightarrow> 'a list \<Rightarrow> 'a list" where
  "gather finish_time outcomes =
     (let order = sort_key finish_time [0..<length outcomes];
          finished = map (\<lambda>i. (i, outcomes ! i)) order
      in map (\<lambda>i. the (map_of finished i)) [0..<length outcomes])"

text \<open>
  The loop \<open>for i, result in enumerate(results)\<close> of \<open>process_batch\<close>, from index \<open>i\<close> on,
  on the counters and lists it updates.
\<close>

fun process_results ::
  "nat \<Rightarrow> task_result list \<Rightarrow> int \<times> int \<times> string list \<times> TTSResponse list \<Rightarrow>
   int \<times> int \<times> string list \<times> TTSResponse list" where
  "process_results i [] acc = acc"
| "process_results i (result # rest) (n_ok, n_failed, errs, processed) =
     (case result of
        Raised e \<Rightarrow>
          (let error_msg = ''Request '' @ str_nat i @ '': '' @ str_exn e
           in process_results (Suc i) rest
                (n_ok, n_failed + 1, errs @ [error_msg], processed @ [failed_response error_msg]))
      | Returned r \<Rightarrow>
          if success r then
            process_results (Suc i) rest (n_ok + 1, n_failed, errs, processed @ [r])
          else
            process_results (Suc i) rest
              (n_ok, n_failed + 1,
               (case error r of
                  Some m \<Rightarrow> (if m \<noteq> [] then errs @ [''Request '' @ str_nat i @ '': '' @ m] else errs)
                | None \<Rightarrow> errs),
               processed @ [r])
      | OtherValue \<Rightarrow>
          (let error_msg = ''Request '' @ str_nat i @ '': Unknown error''
           in process_results (Suc i) rest
                (n_ok, n_failed + 1, errs @ [error_msg], processed @ [failed_response error_msg])))"

text \<open>
  The outside world of a batch: the agent as it answers within item \<open>i\<close>, Python's
  \<open>hash\<close>, the finishing time of each item, the error (if any) of creating the output
  directory, and the two readings of the clock.
\<close>

record world =
  agent_for :: "nat \<Rightarrow> agent"
  hash_text :: "string \<Rightarrow> int"
  finish_time :: "nat \<Rightarrow> nat"
  mkdir_error :: "path \<Rightarrow> string option"
  start_time :: real
  end_time :: real

text \<open>
  What a call of \<open>process_batch\<close> gives: the response or the exception that leaves the
  call, the events of the batch itself, and the events of each item that was dispatched.
\<close>

record batch_run =
  outcome :: "exn + BatchTTSResponse"
  batch_trace :: "event list"
  item_traces :: "event list list"

text \<open>
  The tasks of a batch, each run to its end: the task of the request at index \<open>i\<close> is
  \<open>_process_single_request\<close> on that request, from a fresh state.
\<close>

definition dispatch :: "world \<Rightarrow> path option \<Rightarrow> int \<Rightarrow> TTSRequest list \<Rightarrow> (TTSResponse \<times> item_state) list" where
  "dispatch w output_dir retry_attempts requests =
     map (\<lambda>(i, request).
            process_single_request (agent_for w i) (hash_text w) request output_dir
              retry_attempts init_state)
         (enumerate 0 requests)"

text \<open>
  Preparing the output directory: \<open>Path(output_directory)\<close> is created when a
  directory is given (\<open>None\<close> and the empty string are false); the exception of a failed
  creation is raised.
\<close>

definition prepare_output_directory :: "world \<Rightarrow> path option \<Rightarrow> exn + path option \<times> event list" where
  "prepare_output_directory w output_directory =
     (if or_str output_directory [] \<noteq> [] then
        (case mkdir_error w (Path (or_str output_directory [])) of
           Some m \<Rightarrow> Inl (OtherException m)
         | None \<Rightarrow>
             Inr (Some (Path (or_str output_directory [])),
                  [Mkdir (Path (or_str output_directory []))]))
      else Inr (None, []))"

text \<open>The \<open>try\<close> block of \<open>process_batch\<close>.\<close>

definition process_batch_try :: "world \<Rightarrow> TTSRequest list \<Rightarrow> path option \<Rightarrow> int \<Rightarrow> batch_run" where
  "process_batch_try w requests output_directory retry_attempts =
     (if requests = [] then
        \<lparr>outcome = Inl (TTSValidationError ''No requests provided for batch processing'' None),
         batch_trace = [], item_traces = []\<rparr>
      else if length requests > 100 then
        \<lparr>outcome = Inl (TTSValidationError ''Maximum 100 requests allowed per batch'' None),
         batch_trace = [], item_traces = []\<rparr>
      else
        (case prepare_output_directory w output_directory of
           Inl e \<Rightarrow> \<lparr>outcome = Inl e, batch_trace = [], item_traces = []\<rparr>
         | Inr (output_dir, made) \<Rightarrow>
             (let tasks = dispatch w output_dir retry_attempts requests;
                  gathered = gather (finish_time w) (map (\<lambda>t. Returned (fst t)) tasks);
                  (n_ok, n_failed, errs, processed) = process_results 0 gathered (0, 0, [], [])
              in \<lparr>outcome = BatchTTSResponse_new (int (length requests)) n_ok n_failed processed
                               (end_time w - start_time w) errs,
                  batch_trace = made,
                  item_traces = map (\<lambda>t. trace (snd t)) tasks\<rparr>)))"

text \<open>\<open>process_batch\<close>: the \<open>try\<close> block, and the \<open>except Exception\<close> clause around it.\<close>

definition process_batch :: "world \<Rightarrow> TTSRequest list \<Rightarrow> path option \<Rightarrow> int \<Rightarrow> batch_run" where
  "process_batch w requests output_directory retry_attempts =
     (let run = process_batch_try w requests output_directory retry_attempts
      in case outcome run of
           Inr response \<Rightarrow> run
         | Inl e \<Rightarrow>
             run\<lparr>outcome :=
                   BatchTTSResponse_new (int (length requests)) 0 (int (length requests))
                     (map (\<lambda>_. failed_response (str_exn e)) requests)
                     (end_time w - start_time w) [str_exn e],
                 batch_trace := batch_trace run @ [LogError (''Batch processing failed: '' @ str_exn e)]\<rparr>)"

section \<open>streaming.py: StreamingTTS\<close>








section \<open>Reading a trace\<close>

text \<open>The attempts and the sleeps of a trace, and its Backend calls.\<close>

definition is_timing :: "event \<Rightarrow> bool" where
  "is_timing e = (case e of Attempt _ \<Rightarrow> True | Sleep _ \<Rightarrow> True | _ \<Rightarrow> False)"

definition is_synthesize :: "event \<Rightarrow> bool" where
  "is_synthesize e = (case e of Synthesize _ \<Rightarrow> True | _ \<Rightarrow> False)"

definition is_timeline :: "event \<Rightarrow> bool" where
  "is_timeline e =
     (case e of Attempt _ \<Rightarrow> True | Synthesize _ \<Rightarrow> True | Sleep _ \<Rightarrow> True | _ \<Rightarrow> False)"




text \<open>
  The backoff as the specification words it: \<open>m\<close> attempts, the first with the 0-based
  number \<open>first\<close>; after the attempt with the 1-based number \<open>n\<close> and before the next one,
  a sleep of \<open>max(1 second, 1 second \<times> n)\<close>; no sleep after the last attempt.
\<close>

fun backoff_schedule :: "nat \<Rightarrow> nat \<Rightarrow> event list" where
  "backoff_schedule first 0 = []"
| "backoff_schedule first (Suc 0) = [Attempt first]"
| "backoff_schedule first (Suc (Suc m)) =
     Attempt first # Sleep (max 1 (1 * real (first + 1))) # backoff_schedule (Suc first) (Suc m)"

text \<open>
  The timeline of one attempt in words: \<open>c\<close> calls of the remote service in a row, the
  first of them the call number \<open>j + 1\<close> of the attempt; after the call number \<open>n\<close> of
  the attempt and before the next one, a sleep of \<open>rate_limit_delay \<times> n\<close>; no sleep after
  the last call.
\<close>

fun api_schedule :: "TTSRequest \<Rightarrow> real \<Rightarrow> nat \<Rightarrow> nat \<Rightarrow> event list" where
  "api_schedule rq delay j 0 = []"
| "api_schedule rq delay j (Suc 0) = [Synthesize rq]"
| "api_schedule rq delay j (Suc (Suc c)) =
     Synthesize rq # Sleep (delay * real (j + 1)) # api_schedule rq delay (Suc j) (Suc c)"

text \<open>
  The timeline of an item in words, for a remote service that fails \<open>k\<close> more calls and
  then succeeds, with \<open>n\<close> attempts left, the next of them with the 0-based number \<open>a\<close>,
  and at most \<open>per_attempt\<close> calls in one attempt: the attempt makes its calls up to the
  first success; when all its calls fail and an attempt is left, the batch sleeps
  \<open>max(1 second, 1 second \<times> (a + 1))\<close> and the next attempt follows; there is no sleep
  after the last attempt.
\<close>

fun item_schedule :: "TTSRequest \<Rightarrow> real \<Rightarrow> nat \<Rightarrow> nat \<Rightarrow> nat \<Rightarrow> nat \<Rightarrow> event list" where
  "item_schedule rq delay per_attempt k a 0 = []"
| "item_schedule rq delay per_attempt k a (Suc n) =
     Attempt a #
     (if k < per_attempt then api_schedule rq delay 0 (Suc k)
      else api_schedule rq delay 0 per_attempt @
           (if n = 0 then []
            else Sleep (max 1 (1 * real (a + 1))) #
                 item_schedule rq delay per_attempt (k - per_attempt) (Suc a) n))"

text \<open>
  An attempt has failed when \<open>generate_speech\<close> raised or returned a response that is not
  a success; \<open>final_outcome\<close> is what \<open>_process_single_request\<close> returns for a failed last
  attempt; \<open>outcome_of\<close> is the entry that the loop of \<open>process_batch\<close> appends for the
  task at index \<open>i\<close>.
\<close>

definition attempt_failed :: "exn + TTSResponse \<Rightarrow> bool" where
  "attempt_failed x = (case x of Inl e \<Rightarrow> True | Inr r \<Rightarrow> \<not> success r)"

definition final_outcome :: "int \<Rightarrow> exn + TTSResponse \<Rightarrow> TTSResponse" where
  "final_outcome retry_attempts x =
     (case x of
        Inl e \<Rightarrow>
          failed_response (''Failed after '' @ str_int (retry_attempts + 1) @ '' attempts: '' @ str_exn e)
      | Inr r \<Rightarrow> r)"

definition outcome_of :: "nat \<Rightarrow> task_result \<Rightarrow> TTSResponse" where
  "outcome_of i t =
     (case t of
        Raised e \<Rightarrow> failed_response (''Request '' @ str_nat i @ '': '' @ str_exn e)
      | Returned r \<Rightarrow> r
      | OtherValue \<Rightarrow> failed_response (''Request '' @ str_nat i @ '': Unknown error''))"

section \<open>Stubs\<close>

text \<open>
  The defaults of \<open>TTSConfig\<close>, and a configuration with one retry and a delay of half
  a second; a remote service that fails its first \<open>k\<close> calls and succeeds from then on,
  with a file system that never fails, and one that never fails with a file system that
  always does; a request, the arguments it is built from, and a request whose text is
  blank; a batch world in which the remote service of item \<open>i\<close> fails its first \<open>k i\<close>
  calls, and one in which the output directory cannot be created; an agent that always
  raises; arguments for a request, with a given speed and with a text of 4096 blanks and
  one letter; a Backend stream of given chunks; and a chunk callback that always raises.
\<close>

definition default_config :: TTSConfig where
  "default_config =
     \<lparr>max_retries = 3, rate_limit_delay = 1.0, default_voice = ALLOY, default_model = TTS_1,
      default_format = MP3, default_speed = 1.0\<rparr>"

definition quick_config :: TTSConfig where
  "quick_config = default_config\<lparr>max_retries := 1, rate_limit_delay := 0.5\<rparr>"

definition stub_env :: "nat \<Rightarrow> env" where
  "stub_env k =
     \<lparr>client_ready = True,
      client_call = (\<lambda>n request.
                       if n < k then Inl (OtherException ''Connection error.'')
                       else Inr ''audio''),
      fs_error = (\<lambda>p. None)\<rparr>"

definition full_disk_env :: env where
  "full_disk_env = (stub_env 0)\<lparr>fs_error := (\<lambda>p. Some ''[Errno 28] No space left on device'')\<rparr>"

definition stub_request :: TTSRequest where
  "stub_request =
     \<lparr>req_text = ''Hello'', req_voice = ALLOY, req_model = TTS_1, req_format = MP3,
      req_speed = 1.0\<rparr>"

definition hello_args :: TTSRequest_args where
  "hello_args =
     \<lparr>arg_text = ''Hello'', arg_voice = ''alloy'', arg_model = ''tts-1'', arg_format = ''mp3'',
      arg_speed = 1.0\<rparr>"

definition stub_hash :: "string \<Rightarrow> int" where
  "stub_hash s = int (length s)"

definition blank_request :: TTSRequest where
  "blank_request =
     \<lparr>req_text = ''   '', req_voice = ALLOY, req_model = TTS_1, req_format = MP3,
      req_speed = 1.0\<rparr>"

definition stub_world :: "(nat \<Rightarrow> nat) \<Rightarrow> world" where
  "stub_world k =
     \<lparr>agent_for = (\<lambda>i. generate_speech default_config (stub_env (k i))),
      hash_text = stub_hash,
      finish_time = (\<lambda>i. 0),
      mkdir_error = (\<lambda>p. None),
      start_time = 0,
      end_time = 1\<rparr>"

definition never_fails :: "nat \<Rightarrow> nat" where
  "never_fails i = 0"

definition item_1_fails :: "nat \<Rightarrow> nat" where
  "item_1_fails i = (if i = 1 then 10 else 0)"

definition last_first :: "nat \<Rightarrow> nat" where
  "last_first i = 100 - i"

definition raising_agent :: agent where
  "raising_agent t v m f s op st = (Inl (OtherException ''boom''), st)"

definition stub_args :: "real \<Rightarrow> TTSRequest_args" where
  "stub_args s =
     \<lparr>arg_text = ''  Hello, world!  '', arg_voice = ''alloy'', arg_model = ''tts-1'',
      arg_format = ''mp3'', arg_speed = s\<rparr>"

definition padded_args :: TTSRequest_args where
  "padded_args =
     \<lparr>arg_text = replicate 4096 (CHR '' '') @ ''a'', arg_voice = ''alloy'', arg_model = ''tts-1'',
      arg_format = ''mp3'', arg_speed = 1.0\<rparr>"



definition readonly_world :: world where
  "readonly_world =
     (stub_world never_fails)\<lparr>mkdir_error := (\<lambda>p. Some ''[Errno 13] Permission denied'')\<rparr>"

section \<open>Facts about the batch\<close>

lemma map_of_indexed: "i \<in> set xs \<Longrightarrow> map_of (map (\<lambda>i. (i, f i)) xs) i = Some (f i)"
  by (induction xs) auto

lemma gather_id: "gather ft xs = xs"
proof -
  have "map (\<lambda>i. the (map_of (map (\<lambda>i. (i, xs ! i)) (sort_key ft [0..<length xs])) i)) [0..<length xs]
        = map (\<lambda>i. xs ! i) [0..<length xs]"
    by (rule map_cong) (simp_all add: map_of_indexed)
  then show ?thesis by (simp add: gather_def Let_def map_nth)
qed

lemma process_results_processed:
  "snd (snd (snd (process_results i ts (a, b, es, ps)))) = ps @ map (\<lambda>(k, t). outcome_of k t) (enumerate i ts)"
  by (induction ts arbitrary: i a b es ps) (auto simp: outcome_of_def Let_def split: task_result.splits)

lemma process_results_counts:
  "process_results i ts (a, b, es, ps) = (a', b', es', ps') \<Longrightarrow>
     a' + b' = a + b + int (length ts) \<and> length ps' = length ps + length ts"
  by (induction ts arbitrary: i a b es ps) (auto simp: Let_def split: task_result.splits if_splits)

lemma BatchTTSResponse_new_iff:
  "(\<exists>r. BatchTTSResponse_new t s f res tm errs = Inr r) \<longleftrightarrow> (s + f = t \<and> int (length res) = t)"
  by (auto simp: BatchTTSResponse_new_def validate_counts_def)

lemma length_dispatch: "length (dispatch w output_dir ra requests) = length requests"
  by (simp add: dispatch_def)

lemma nth_dispatch:
  "i < length requests \<Longrightarrow> dispatch w output_dir ra requests ! i =
     process_single_request (agent_for w i) (hash_text w) (requests ! i) output_dir ra init_state"
  by (simp add: dispatch_def nth_enumerate_eq)

lemma process_results_returned:
  "snd (snd (snd (process_results i (map Returned rs) (a, b, es, ps)))) = ps @ rs"
  by (induction rs arbitrary: i a b es ps) (auto simp: Let_def)

lemma process_batch_try_dispatched:
  assumes "requests \<noteq> []" "length requests \<le> 100"
    and "prepare_output_directory w od = Inr (output_dir, made)"
  shows "\<exists>a b es. process_batch_try w requests od ra =
           \<lparr>outcome = Inr \<lparr>total_requests = int (length requests), successful = a, failed = b,
                           results = map fst (dispatch w output_dir ra requests),
                           processing_time = end_time w - start_time w, errors = es\<rparr>,
            batch_trace = made,
            item_traces = map (\<lambda>t. trace (snd t)) (dispatch w output_dir ra requests)\<rparr>
           \<and> a + b = int (length requests)"
proof -
  let ?tasks = "dispatch w output_dir ra requests"
  let ?g = "map Returned (map fst ?tasks)"
  obtain a b es ps where pr: "process_results 0 ?g (0, 0, [], []) = (a, b, es, ps)"
    by (metis prod_cases4)
  from process_results_counts[OF pr] have cnt: "a + b = int (length requests)" "length ps = length requests"
    by (simp_all add: length_dispatch)
  from process_results_returned[of 0 "map fst ?tasks" 0 0 "[]" "[]"] pr have ps: "ps = map fst ?tasks"
    by simp
  have "process_batch_try w requests od ra =
           \<lparr>outcome = Inr \<lparr>total_requests = int (length requests), successful = a, failed = b,
                           results = map fst ?tasks,
                           processing_time = end_time w - start_time w, errors = es\<rparr>,
            batch_trace = made,
            item_traces = map (\<lambda>t. trace (snd t)) ?tasks\<rparr>"
    using assms pr cnt ps
    by (simp add: process_batch_try_def gather_id BatchTTSResponse_new_def validate_counts_def
          length_dispatch comp_def Let_def)
  with cnt show ?thesis by blast
qed

lemma process_batch_try_rejected:
  "requests = [] \<Longrightarrow> process_batch_try w requests od ra =
     \<lparr>outcome = Inl (TTSValidationError ''No requests provided for batch processing'' None), batch_trace = [], item_traces = []\<rparr>"
  "100 < length requests \<Longrightarrow> process_batch_try w requests od ra =
     \<lparr>outcome = Inl (TTSValidationError ''Maximum 100 requests allowed per batch'' None), batch_trace = [], item_traces = []\<rparr>"
  by (auto simp: process_batch_try_def)

lemma process_batch_try_mkdir_failed:
  "requests \<noteq> [] \<Longrightarrow> length requests \<le> 100 \<Longrightarrow> prepare_output_directory w od = Inl e \<Longrightarrow>
   process_batch_try w requests od ra = \<lparr>outcome = Inl e, batch_trace = [], item_traces = []\<rparr>"
  by (auto simp: process_batch_try_def)

lemma process_batch_except:
  "outcome (process_batch_try w requests od ra) = Inl e \<Longrightarrow>
   outcome (process_batch w requests od ra) =
     Inr \<lparr>total_requests = int (length requests), successful = 0, failed = int (length requests),
          results = replicate (length requests) (failed_response (str_exn e)),
          processing_time = end_time w - start_time w, errors = [str_exn e]\<rparr>"
  by (simp add: process_batch_def Let_def BatchTTSResponse_new_def validate_counts_def map_replicate_const)

lemma process_batch_pass:
  "outcome (process_batch_try w requests od ra) = Inr r \<Longrightarrow>
   process_batch w requests od ra = process_batch_try w requests od ra"
  by (simp add: process_batch_def Let_def)

lemma prepare_finish_time:
  "prepare_output_directory (w\<lparr>finish_time := ft\<rparr>) od = prepare_output_directory w od"
  by (simp add: prepare_output_directory_def)

lemma dispatch_finish_time:
  "dispatch (w\<lparr>finish_time := ft\<rparr>) output_dir ra requests = dispatch w output_dir ra requests"
  by (simp add: dispatch_def)

lemma process_batch_try_finish_time:
  "process_batch_try (w\<lparr>finish_time := ft\<rparr>) requests od ra = process_batch_try w requests od ra"
  by (simp add: process_batch_try_def gather_id prepare_finish_time dispatch_finish_time Let_def
        split: sum.splits prod.splits)

lemma process_batch_finish_time:
  "process_batch (w\<lparr>finish_time := ft\<rparr>) requests od ra = process_batch w requests od ra"
  by (simp add: process_batch_def process_batch_try_finish_time Let_def split: sum.splits)

section \<open>Facts about the retry loop\<close>

lemma trace_emit [simp]: "trace (emit e st) = trace st @ [e]"
  by (simp add: emit_def)

lemma calls_emit [simp]: "calls (emit e st) = calls st"
  by (simp add: emit_def)

lemma backoff_schedule_step:
  "1 \<le> m \<Longrightarrow> backoff_schedule a (Suc m) = Attempt a # Sleep (real (a + 1)) # backoff_schedule (Suc a) m"
  by (cases m) (simp_all add: max_def)

lemma process_attempts_invariant:
  assumes call: "\<And>st. P st \<Longrightarrow> P (snd (call st))"
    and em: "\<And>e st. \<not> is_synthesize e \<Longrightarrow> P st \<Longrightarrow> P (emit e st)"
  shows "P st \<Longrightarrow> P (snd (process_attempts call ra as st))"
proof (induction as arbitrary: st)
  case Nil
  then show ?case by simp
next
  case (Cons a as)
  obtain x st1 where c: "call (emit (Attempt a) st) = (x, st1)" by (cases "call (emit (Attempt a) st)")
  have p1: "P st1" using call[of "emit (Attempt a) st"] em[of "Attempt a" st] Cons.prems c
    by (simp add: is_synthesize_def)
  have step: "\<And>e1 e2. \<not> is_synthesize e1 \<Longrightarrow> \<not> is_synthesize e2 \<Longrightarrow> P (emit e2 (emit e1 st1))"
    using em p1 by blast
  show ?case
    using c p1 em[OF _ p1] Cons.IH[OF step]
    by (cases x) (auto simp: is_synthesize_def)
qed

lemma process_attempts_constant:
  assumes det: "\<And>st. fst (call st) = x" and f: "attempt_failed x"
  shows "a \<le> l \<Longrightarrow> fst (process_attempts call (int l) [a..<Suc l] st) = final_outcome (int l) x"
proof (induction "l - a" arbitrary: a st)
  case 0
  then have al: "a = l" by simp
  obtain y st1 where c: "call (emit (Attempt a) st) = (y, st1)" by (cases "call (emit (Attempt a) st)")
  from det[of "emit (Attempt a) st"] c have x: "y = x" by simp
  show ?case using c x f al
    by (cases x) (auto simp: attempt_failed_def final_outcome_def)
next
  case (Suc n)
  then have lt: "a < l" and n: "n = l - Suc a" and le: "Suc a \<le> l" by auto
  obtain y st1 where c: "call (emit (Attempt a) st) = (y, st1)" by (cases "call (emit (Attempt a) st)")
  from det[of "emit (Attempt a) st"] c have x: "y = x" by simp
  have list: "[a..<Suc l] = a # [Suc a..<Suc l]" using lt by (simp add: upt_conv_Cons)
  have al: "int a < int l" using lt by simp
  from f x obtain w where rec: "process_attempts call (int l) [a..<Suc l] st =
        process_attempts call (int l) [Suc a..<Suc l] (emit (Sleep (real (a + 1))) (emit (LogWarning w) st1))"
    using c list al by (cases x) (auto simp: attempt_failed_def simp del: upt_Suc)
  from Suc.hyps(1)[OF n le, of "emit (Sleep (real (a + 1))) (emit (LogWarning w) st1)"] rec
  show ?case by simp
qed

lemma process_attempts_all_failed_timing:
  assumes quiet: "\<And>st. filter is_timing (trace (snd (call st))) = filter is_timing (trace st)"
    and f: "\<And>st. attempt_failed (fst (call st))"
  shows "a \<le> l \<Longrightarrow>
           filter is_timing (trace (snd (process_attempts call (int l) [a..<Suc l] st))) =
           filter is_timing (trace st) @ backoff_schedule a (Suc l - a)"
proof (induction "l - a" arbitrary: a st)
  case 0
  then have al: "a = l" by simp
  obtain x st1 where c: "call (emit (Attempt l) st) = (x, st1)" by (cases "call (emit (Attempt l) st)")
  from quiet[of "emit (Attempt l) st"] c
  have q: "filter is_timing (trace st1) = filter is_timing (trace st) @ [Attempt l]"
    by (simp add: is_timing_def)
  have "filter is_timing (trace (snd (process_attempts call (int l) [l..<Suc l] st))) =
           filter is_timing (trace st) @ backoff_schedule l 1"
    using c q by (cases x) (auto simp: is_timing_def)
  with al show ?case by simp
next
  case (Suc n)
  then have lt: "a < l" and n: "n = l - Suc a" and le: "Suc a \<le> l" by auto
  obtain x st1 where c: "call (emit (Attempt a) st) = (x, st1)" by (cases "call (emit (Attempt a) st)")
  from quiet[of "emit (Attempt a) st"] c
  have q: "filter is_timing (trace st1) = filter is_timing (trace st) @ [Attempt a]"
    by (simp add: is_timing_def)
  have list: "[a..<Suc l] = a # [Suc a..<Suc l]" using lt by (simp add: upt_conv_Cons)
  from f[of "emit (Attempt a) st"] c have fx: "attempt_failed x" by simp
  have al: "int a < int l" using lt by simp
  from fx obtain w where rec: "process_attempts call (int l) [a..<Suc l] st =
        process_attempts call (int l) [Suc a..<Suc l] (emit (Sleep (real (a + 1))) (emit (LogWarning w) st1))"
    using c list al by (cases x) (auto simp: attempt_failed_def simp del: upt_Suc)
  let ?st2 = "emit (Sleep (real (a + 1))) (emit (LogWarning w) st1)"
  have t2: "filter is_timing (trace ?st2) = filter is_timing (trace st) @ [Attempt a, Sleep (real (a + 1))]"
    using q by (simp add: is_timing_def)
  have sl: "Suc l - a = Suc (Suc l - Suc a)" "1 \<le> Suc l - Suc a" using lt by auto
  have "filter is_timing (trace (snd (process_attempts call (int l) [a..<Suc l] st))) =
        filter is_timing (trace ?st2) @ backoff_schedule (Suc a) (Suc l - Suc a)"
    using Suc.hyps(1)[OF n le, of ?st2] rec by simp
  also have "\<dots> = filter is_timing (trace st) @
        (Attempt a # Sleep (real (a + 1)) # backoff_schedule (Suc a) (Suc l - Suc a))"
    by (simp only: t2) simp
  also have "\<dots> = filter is_timing (trace st) @ backoff_schedule a (Suc l - a)"
    by (simp only: sl(1) backoff_schedule_step[OF sl(2)])
  finally show ?case .
qed

section \<open>Facts about the agent\<close>

lemma single_request_unfold:
  "0 \<le> ra \<Longrightarrow> process_single_request ag h request od ra st =
     process_attempts
       (ag (req_text request) (Some (Voice_value (req_voice request)))
           (Some (TTSModel_value (req_model request)))
           (Some (AudioFormat_value (req_format request)))
           (Some (req_speed request))
           (item_output_path h request od))
       (int (nat ra)) [0..<Suc (nat ra)] st"
  by (simp add: process_single_request_def nat_add_distrib)

section \<open>Facts about requests\<close>

lemma find_Some_member: "find P xs = Some x \<Longrightarrow> P x \<and> x \<in> set xs"
  by (induction xs) (auto split: if_splits)

lemma field_enum_iff:
  "(\<exists>m. field_enum name val members s = Inr m) \<longleftrightarrow> s \<in> set (map val members)"
  by (auto simp: field_enum_def enum_lookup_def find_None_iff split: option.splits dest: find_Some_member)

lemma field_enum_value:
  "field_enum name val members s = Inr m \<Longrightarrow> val m = s"
  by (auto simp: field_enum_def enum_lookup_def find_Some_iff split: option.splits)

lemma field_text_iff:
  "(\<exists>t. field_text v = Inr t) \<longleftrightarrow> length v \<le> 4096 \<and> strip v \<noteq> []"
  by (auto simp: field_text_def validate_text_def strip_def)

lemma field_text_value: "field_text v = Inr t \<Longrightarrow> t = strip v"
  by (auto simp: field_text_def validate_text_def split: if_splits)

lemma field_speed_iff:
  "(\<exists>t. field_speed v = Inr t) \<longleftrightarrow> 0.25 \<le> v \<and> v \<le> 4"
  by (auto simp: field_speed_def validate_speed_def)

lemma field_speed_value: "field_speed v = Inr t \<Longrightarrow> t = v"
  by (auto simp: field_speed_def validate_speed_def split: if_splits)

lemma TTSRequest_new_Inr_iff:
  "TTSRequest_new a = Inr r \<longleftrightarrow>
     field_text (arg_text a) = Inr (req_text r) \<and>
     field_enum ''voice'' Voice_value all_voices (arg_voice a) = Inr (req_voice r) \<and>
     field_enum ''model'' TTSModel_value all_models (arg_model a) = Inr (req_model r) \<and>
     field_enum ''format'' AudioFormat_value all_formats (arg_format a) = Inr (req_format r) \<and>
     field_speed (arg_speed a) = Inr (req_speed r)"
  by (cases r) (auto simp: TTSRequest_new_def Let_def split: sum.splits)

lemma TTSRequest_new_Inl_errors:
  "TTSRequest_new a = Inl e \<Longrightarrow> \<exists>errs. errs \<noteq> [] \<and> e = ValidationError ''TTSRequest'' errs"
  by (auto simp: TTSRequest_new_def Let_def errors_of_def split: sum.splits)

lemma last_dropWhile: "dropWhile P xs \<noteq> [] \<Longrightarrow> last (dropWhile P xs) = last xs"
  by (induction xs) (auto split: if_splits)

lemma strip_idem: "strip (strip s) = strip s"
proof -
  let ?u = "dropWhile is_space s"
  let ?t = "dropWhile is_space (rev ?u)"
  have "dropWhile is_space (rev ?t) = rev ?t"
  proof (cases "?t = []")
    case True
    then have "rev ?t = []" by (simp only: rev.simps)
    then show ?thesis by (simp only: dropWhile.simps)
  next
    case False
    have u: "?u \<noteq> []"
    proof
      assume e: "?u = []"
      have "?t = []" unfolding e by simp
      with False show False by blast
    qed
    have "hd (rev ?t) = last ?t" using False by (simp add: hd_rev)
    also have "\<dots> = last (rev ?u)" using False by (rule last_dropWhile)
    also have "\<dots> = hd ?u" using u by (simp add: last_rev)
    finally have "\<not> is_space (hd (rev ?t))" using hd_dropWhile[OF u] by simp
    then show ?thesis by (simp add: dropWhile_eq_self_iff)
  qed
  then show ?thesis by (simp add: strip_def)
qed

lemma length_strip: "length (strip s) \<le> length s"
  unfolding strip_def
  by (metis length_dropWhile_le length_rev order_trans)

lemma field_enum_voice: "field_enum ''voice'' Voice_value all_voices (Voice_value v) = Inr v"
  by (cases v) (simp_all add: field_enum_def enum_lookup_def all_voices_def)

lemma field_enum_model: "field_enum ''model'' TTSModel_value all_models (TTSModel_value m) = Inr m"
  by (cases m) (simp_all add: field_enum_def enum_lookup_def all_models_def)

lemma field_enum_format: "field_enum ''format'' AudioFormat_value all_formats (AudioFormat_value f) = Inr f"
  by (cases f) (simp_all add: field_enum_def enum_lookup_def all_formats_def)

lemma Voice_value_nonempty: "Voice_value v \<noteq> []"
  by (cases v) simp_all

lemma TTSModel_value_nonempty: "TTSModel_value m \<noteq> []"
  by (cases m) simp_all

lemma AudioFormat_value_nonempty: "AudioFormat_value f \<noteq> []"
  by (cases f) simp_all

lemma validated_request_revalidates:
  assumes "TTSRequest_new a = Inr r"
  shows "revalidate cfg r = Inr r"
proof -
  from assms have t: "field_text (arg_text a) = Inr (req_text r)" and s: "field_speed (arg_speed a) = Inr (req_speed r)"
    by (simp_all add: TTSRequest_new_Inr_iff)
  from t have rt: "req_text r = strip (arg_text a)" "length (arg_text a) \<le> 4096" "strip (arg_text a) \<noteq> []"
    using field_text_iff[of "arg_text a"] by (auto dest: field_text_value)
  from s have rs: "0.25 \<le> req_speed r" "req_speed r \<le> 4"
    using field_speed_iff[of "arg_speed a"] by (auto dest: field_speed_value)
  have "field_text (req_text r) = Inr (req_text r)"
    using rt length_strip[of "arg_text a"]
    by (simp add: field_text_def validate_text_def strip_idem)
  moreover have "field_speed (req_speed r) = Inr (req_speed r)"
    using rs by (simp add: field_speed_def validate_speed_def)
  ultimately show ?thesis
    using rs by (simp add: revalidate_def request_args_def TTSRequest_new_Inr_iff or_str_def or_speed_def
        Voice_value_nonempty TTSModel_value_nonempty AudioFormat_value_nonempty
        field_enum_voice field_enum_model field_enum_format)
qed

section \<open>Facts about streams\<close>











section \<open>Facts about paths\<close>

lemma split_on_nonempty: "split_on c s \<noteq> []"
  by (induction s) (auto split: list.splits)

lemma split_on_pieces: "x \<in> set (split_on c s) \<Longrightarrow> c \<notin> set x"
  by (induction s arbitrary: x) (auto split: list.splits if_splits)

lemma split_on_no_sep: "c \<notin> set ys \<Longrightarrow> split_on c ys = [ys]"
  by (induction ys) auto

lemma split_on_append:
  "c \<notin> set ys \<Longrightarrow>
   split_on c (xs @ ys) = butlast (split_on c xs) @ [last (split_on c xs) @ ys]"
proof (induction xs)
  case Nil
  then show ?case by (simp add: split_on_no_sep)
next
  case (Cons x xs)
  obtain s1 S where S: "split_on c xs = s1 # S"
    using split_on_nonempty[of c xs] by (cases "split_on c xs") auto
  show ?case
  proof (cases "S = []")
    case True
    with Cons S show ?thesis by simp
  next
    case False
    with Cons S show ?thesis by simp
  qed
qed

lemma last_split_on_append:
  "c \<notin> set ys \<Longrightarrow> last (split_on c (xs @ ys)) = last (split_on c xs) @ ys"
  by (simp add: split_on_append)

lemma split_on_snoc_sep: "split_on c (xs @ [c]) = split_on c xs @ [[]]"
proof (induction xs)
  case Nil
  then show ?case by simp
next
  case (Cons x xs)
  obtain s1 S where S: "split_on c xs = s1 # S"
    using split_on_nonempty[of c xs] by (cases "split_on c xs") auto
  with Cons show ?case by simp
qed

lemma last_split_on_sep: "last (split_on c (xs @ [c])) = []"
  by (simp add: split_on_snoc_sep)

lemma last_filter_keep: "xs \<noteq> [] \<Longrightarrow> P (last xs) \<Longrightarrow> last (filter P xs) = last xs"
  by (induction xs rule: rev_induct) auto

lemma path_parts_valid: "x \<in> set (path_parts s) \<Longrightarrow> x \<noteq> [] \<and> x \<noteq> ''.'' \<and> CHR ''/'' \<notin> set x"
  by (auto simp: path_parts_def dest: split_on_pieces)

lemma path_root_cases: "path_root s = [] \<or> path_root s = ''/'' \<or> path_root s = ''//''"
  by (simp add: path_root_def)

lemma join_with_snoc:
  "join_with sep (ps @ [y]) = (if ps = [] then y else join_with sep ps @ sep @ y)"
  by (cases ps) (simp_all add: join_with_def)

lemma path_parts_last:
  assumes "CHR ''/'' \<notin> set y" "y \<noteq> []" "y \<noteq> ''.''"
    and "pre = [] \<or> (\<exists>zs. pre = zs @ ''/'')"
  shows "path_parts (pre @ y) \<noteq> [] \<and> last (path_parts (pre @ y)) = y"
proof -
  have "last (split_on CHR ''/'' pre) = []"
    using assms(4) last_split_on_sep[of "CHR ''/''"] by auto
  with last_split_on_append[OF assms(1), of pre]
  have l: "last (split_on CHR ''/'' (pre @ y)) = y" by simp
  have ne: "split_on CHR ''/'' (pre @ y) \<noteq> []" by (rule split_on_nonempty)
  have "y \<in> set (path_parts (pre @ y))"
    unfolding path_parts_def using l ne assms(2,3) last_in_set[OF ne] by auto
  moreover have "last (path_parts (pre @ y)) = y"
    unfolding path_parts_def using l ne assms(2,3) by (simp add: last_filter_keep)
  ultimately show ?thesis by auto
qed

lemma path_of_parts_parts:
  assumes ne: "ps \<noteq> []" and valid: "\<And>x. x \<in> set ps \<Longrightarrow> x \<noteq> [] \<and> x \<noteq> ''.'' \<and> CHR ''/'' \<notin> set x"
    and r: "r = [] \<or> r = ''/'' \<or> r = ''//''"
  shows "path_parts (path_of_parts r ps) \<noteq> [] \<and> last (path_parts (path_of_parts r ps)) = last ps"
proof -
  from ne obtain qs y where ps: "ps = qs @ [y]" by (metis rev_exhaust)
  have y: "CHR ''/'' \<notin> set y" "y \<noteq> []" "y \<noteq> ''.''" using valid[of y] ps by auto
  define pre where "pre = r @ (if qs = [] then [] else join_with ''/'' qs @ ''/'')"
  have eq: "path_of_parts r ps = pre @ y"
    using ps by (simp add: path_of_parts_def join_with_snoc pre_def)
  have "pre = [] \<or> (\<exists>zs. pre = zs @ ''/'')"
  proof (cases "qs = []")
    case True
    then show ?thesis using r by (auto simp: pre_def)
  next
    case False
    then have "pre = (r @ join_with ''/'' qs) @ ''/''" by (simp add: pre_def)
    then show ?thesis by blast
  qed
  from path_parts_last[OF y this] show ?thesis unfolding eq by (simp add: ps)
qed

lemma path_parts_Path:
  "path_parts s \<noteq> [] \<Longrightarrow> path_parts (Path s) \<noteq> [] \<and> last (path_parts (Path s)) = last (path_parts s)"
  unfolding Path_def
  by (rule path_of_parts_parts) (auto dest: path_parts_valid simp: path_root_cases)

lemma path_parts_join:
  assumes "path_parts name \<noteq> []"
  shows "path_parts (path_join d name) \<noteq> []"
proof (cases "path_root name \<noteq> []")
  case True
  then show ?thesis using path_parts_Path[OF assms] by (simp add: path_join_def)
next
  case False
  have "path_parts (path_of_parts (path_root d) (path_parts d @ path_parts name)) \<noteq> []"
    using assms path_of_parts_parts[of "path_parts d @ path_parts name" "path_root d"]
    by (auto dest: path_parts_valid simp: path_root_cases)
  with False show ?thesis by (simp add: path_join_def)
qed

lemma path_parts_item_name:
  "path_parts (pre @ ''.'' @ AudioFormat_value f) \<noteq> []"
proof -
  let ?y = "last (split_on CHR ''/'' (pre @ ''.'')) @ AudioFormat_value f"
  have nf: "CHR ''/'' \<notin> set (AudioFormat_value f)" by (cases f) simp_all
  from last_split_on_append[OF nf, of "pre @ ''.''"]
  have l: "last (split_on CHR ''/'' (pre @ ''.'' @ AudioFormat_value f)) = ?y" by simp
  have ne: "split_on CHR ''/'' (pre @ ''.'' @ AudioFormat_value f) \<noteq> []" by (rule split_on_nonempty)
  have y: "?y \<noteq> [] \<and> ?y \<noteq> ''.''" by (cases f) (auto simp: append_eq_Cons_conv)
  have "?y \<in> set (path_parts (pre @ ''.'' @ AudioFormat_value f))"
    unfolding path_parts_def using l y last_in_set[OF ne] by auto
  then show ?thesis by auto
qed

lemma ensure_suffix_ok:
  assumes "path_parts p \<noteq> []"
  shows "\<exists>saved. ensure_suffix p fmt = Inr saved"
proof -
  from path_parts_Path[OF assms] have "path_parts (Path p) \<noteq> []" by simp
  then have "path_name (Path p) \<noteq> []"
    using path_parts_valid[of "last (path_parts (Path p))" "Path p"]
    by (auto simp: path_name_def)
  then show ?thesis by (simp add: ensure_suffix_def with_suffix_def)
qed

lemma item_output_path_ok:
  "item_output_path h r od = None \<or>
   (\<exists>p. item_output_path h r od = Some p \<and> path_parts p \<noteq> [])"
proof (cases od)
  case None
  then show ?thesis by (simp add: item_output_path_def)
next
  case (Some d)
  from path_parts_item_name[of "''tts_'' @ str_int (h (req_text r) mod 1000000)" "req_format r"]
  have "path_parts (''tts_'' @ str_int (h (req_text r) mod 1000000) @ ''.'' @ AudioFormat_value (req_format r)) \<noteq> []"
    by simp
  from path_parts_join[OF this, of d] show ?thesis using Some by (simp add: item_output_path_def)
qed

section \<open>Facts about the calls of the remote service\<close>

lemma api_schedule_step:
  "api_schedule rq d j (Suc (Suc c)) = Synthesize rq # Sleep (d * real (j + 1)) # api_schedule rq d (Suc j) (Suc c)"
  by simp

lemma api_attempts_success:
  assumes fails: "\<And>n. n < k \<Longrightarrow> \<exists>e. client_call w n rq = Inl e"
    and ok: "client_call w k rq = Inr audio"
  shows "calls st \<le> k \<Longrightarrow> k - calls st \<le> max_retries cfg - j \<Longrightarrow> j \<le> max_retries cfg \<Longrightarrow>
         fst (api_attempts cfg w rq j st) = Inr audio \<and>
         calls (snd (api_attempts cfg w rq j st)) = Suc k \<and>
         filter is_timeline (trace (snd (api_attempts cfg w rq j st))) =
           filter is_timeline (trace st) @ api_schedule rq (rate_limit_delay cfg) j (Suc (k - calls st))"
proof (induction "k - calls st" arbitrary: j st)
  case 0
  then have c: "calls st = k" by simp
  show ?case
    by (subst (1 2 3) api_attempts.simps) (simp add: c ok is_timeline_def)
next
  case (Suc n)
  then have lt: "calls st < k" by simp
  from fails[OF lt] obtain e where e: "client_call w (calls st) rq = Inl e" by blast
  from Suc.prems Suc.hyps(2) have j: "j < max_retries cfg" by simp
  let ?st' = "emit (Sleep (rate_limit_delay cfg * real (j + 1)))
                 (emit (LogWarning (''API call failed (attempt '' @ str_nat (j + 1) @
                                    ''), retrying: '' @ str_exn e))
                    (emit (Synthesize rq) (st\<lparr>calls := Suc (calls st)\<rparr>)))"
  have rec: "api_attempts cfg w rq j st = api_attempts cfg w rq (Suc j) ?st'"
    by (subst api_attempts.simps) (simp add: e j)
  have c': "calls ?st' = Suc (calls st)" by (simp add: emit_def)
  have n: "n = k - calls ?st'" using Suc.hyps(2) c' by simp
  have tl: "filter is_timeline (trace ?st') =
     filter is_timeline (trace st) @ [Synthesize rq, Sleep (rate_limit_delay cfg * real (j + 1))]"
    by (simp add: emit_def is_timeline_def)
  have kc: "k - calls st = Suc (k - calls ?st')" using lt c' by simp
  from Suc.hyps(1)[OF n, of "Suc j"] Suc.prems j c' lt
  have IH: "fst (api_attempts cfg w rq (Suc j) ?st') = Inr audio \<and>
         calls (snd (api_attempts cfg w rq (Suc j) ?st')) = Suc k \<and>
         filter is_timeline (trace (snd (api_attempts cfg w rq (Suc j) ?st'))) =
           filter is_timeline (trace ?st') @ api_schedule rq (rate_limit_delay cfg) (Suc j) (Suc (k - calls ?st'))"
    by simp
  show ?case
    unfolding rec kc api_schedule_step using IH tl by simp
qed

lemma api_attempts_exhausted:
  assumes fails: "\<And>n. n < k \<Longrightarrow> \<exists>e. client_call w n rq = Inl e"
  shows "j \<le> max_retries cfg \<Longrightarrow> calls st + (max_retries cfg - j) < k \<Longrightarrow>
         (\<exists>e. client_call w (calls st + (max_retries cfg - j)) rq = Inl e \<and>
              fst (api_attempts cfg w rq j st) =
                Inl (TTSAPIError (''API call failed after '' @ str_nat (max_retries cfg + 1) @
                                  '' attempts: '' @ str_exn e) None None)) \<and>
         calls (snd (api_attempts cfg w rq j st)) = calls st + (max_retries cfg - j) + 1 \<and>
         filter is_timeline (trace (snd (api_attempts cfg w rq j st))) =
           filter is_timeline (trace st) @
           api_schedule rq (rate_limit_delay cfg) j (Suc (max_retries cfg - j))"
proof (induction "max_retries cfg - j" arbitrary: j st)
  case 0
  then have j: "j = max_retries cfg" by simp
  from 0 have lt: "calls st < k" by simp
  from fails[OF lt] obtain e where e: "client_call w (calls st) rq = Inl e" by blast
  show ?case
    using e j by (subst (1 2 3) api_attempts.simps) (simp add: is_timeline_def emit_def)
next
  case (Suc n)
  then have j: "j < max_retries cfg" by simp
  from Suc.prems have lt: "calls st < k" by simp
  from fails[OF lt] obtain e where e: "client_call w (calls st) rq = Inl e" by blast
  let ?st' = "emit (Sleep (rate_limit_delay cfg * real (j + 1)))
                 (emit (LogWarning (''API call failed (attempt '' @ str_nat (j + 1) @
                                    ''), retrying: '' @ str_exn e))
                    (emit (Synthesize rq) (st\<lparr>calls := Suc (calls st)\<rparr>)))"
  have rec: "api_attempts cfg w rq j st = api_attempts cfg w rq (Suc j) ?st'"
    by (subst api_attempts.simps) (simp add: e j)
  have c': "calls ?st' = Suc (calls st)" by (simp add: emit_def)
  have n: "n = max_retries cfg - Suc j" using Suc.hyps(2) by simp
  have tl: "filter is_timeline (trace ?st') =
     filter is_timeline (trace st) @ [Synthesize rq, Sleep (rate_limit_delay cfg * real (j + 1))]"
    by (simp add: emit_def is_timeline_def)
  have mj: "max_retries cfg - j = Suc (max_retries cfg - Suc j)" using j by simp
  have idx: "calls ?st' + (max_retries cfg - Suc j) = calls st + (max_retries cfg - j)"
    using c' j by simp
  from Suc.hyps(1)[OF n, of ?st'] Suc.prems j idx
  have IH: "(\<exists>e. client_call w (calls st + (max_retries cfg - j)) rq = Inl e \<and>
              fst (api_attempts cfg w rq (Suc j) ?st') =
                Inl (TTSAPIError (''API call failed after '' @ str_nat (max_retries cfg + 1) @
                                  '' attempts: '' @ str_exn e) None None)) \<and>
         calls (snd (api_attempts cfg w rq (Suc j) ?st')) = calls st + (max_retries cfg - j) + 1 \<and>
         filter is_timeline (trace (snd (api_attempts cfg w rq (Suc j) ?st'))) =
           filter is_timeline (trace ?st') @
           api_schedule rq (rate_limit_delay cfg) (Suc j) (Suc (max_retries cfg - Suc j))"
    by simp
  show ?case
    unfolding rec using IH tl unfolding mj api_schedule_step by simp
qed

lemma is_synthesize_simps [simp]:
  "\<not> is_synthesize (Attempt n)" "is_synthesize (Synthesize q)" "\<not> is_synthesize (Sleep x)"
  "\<not> is_synthesize (Mkdir p)" "\<not> is_synthesize (FileWrite p b)" "\<not> is_synthesize (Callback b)"
  "\<not> is_synthesize (Yield b)" "\<not> is_synthesize (LogWarning m)" "\<not> is_synthesize (LogError m)"
  by (simp_all add: is_synthesize_def)

lemma is_timing_simps [simp]:
  "is_timing (Attempt n)" "\<not> is_timing (Synthesize q)" "is_timing (Sleep x)"
  "\<not> is_timing (Mkdir p)" "\<not> is_timing (FileWrite p b)" "\<not> is_timing (Callback b)"
  "\<not> is_timing (Yield b)" "\<not> is_timing (LogWarning m)" "\<not> is_timing (LogError m)"
  by (simp_all add: is_timing_def)

lemma is_timeline_simps [simp]:
  "is_timeline (Attempt n)" "is_timeline (Synthesize q)" "is_timeline (Sleep x)"
  "\<not> is_timeline (Mkdir p)" "\<not> is_timeline (FileWrite p b)" "\<not> is_timeline (Callback b)"
  "\<not> is_timeline (Yield b)" "\<not> is_timeline (LogWarning m)" "\<not> is_timeline (LogError m)"
  by (simp_all add: is_timeline_def)

lemma save_audio_file_ok:
  assumes fs: "fs_error w = (\<lambda>p. None)" and p: "path_parts p \<noteq> []"
  shows "\<exists>saved. save_audio_file w audio p fmt st = (Inr saved, emit (FileWrite saved audio) st)"
proof -
  from ensure_suffix_ok[OF p, of fmt] obtain saved where "ensure_suffix p fmt = Inr saved" by blast
  then show ?thesis using fs by (simp add: save_audio_file_def write_file_def)
qed

lemma path_parts_empty: "path_parts [] = []"
  by (simp add: path_parts_def)

lemma generate_speech_item:
  assumes v: "TTSRequest_new (request_args cfg t v m f s) = Inr rq"
    and ready: "client_ready w"
    and fs: "op = None \<or> fs_error w = (\<lambda>p. None)"
    and op: "op = None \<or> (\<exists>p. op = Some p \<and> path_parts p \<noteq> [])"
  shows "fst (api_attempts cfg w rq 0 st) = Inr audio \<Longrightarrow>
           (\<exists>r. fst (generate_speech cfg w t v m f s op st) = Inr r \<and> success r) \<and>
           calls (snd (generate_speech cfg w t v m f s op st)) = calls (snd (api_attempts cfg w rq 0 st)) \<and>
           filter is_timeline (trace (snd (generate_speech cfg w t v m f s op st))) =
             filter is_timeline (trace (snd (api_attempts cfg w rq 0 st)))"
    and "fst (api_attempts cfg w rq 0 st) = Inl (TTSAPIError msg a b) \<Longrightarrow>
           generate_speech cfg w t v m f s op st =
             (Inl (TTSAPIError msg a b), snd (api_attempts cfg w rq 0 st))"
proof -
  obtain x st1 where api: "api_attempts cfg w rq 0 st = (x, st1)" by (cases "api_attempts cfg w rq 0 st")
  show "fst (api_attempts cfg w rq 0 st) = Inl (TTSAPIError msg a b) \<Longrightarrow>
           generate_speech cfg w t v m f s op st =
             (Inl (TTSAPIError msg a b), snd (api_attempts cfg w rq 0 st))"
    using v ready api
    by (simp add: generate_speech_def call_openai_api_def except_generate_speech_def)
  show "fst (api_attempts cfg w rq 0 st) = Inr audio \<Longrightarrow>
           (\<exists>r. fst (generate_speech cfg w t v m f s op st) = Inr r \<and> success r) \<and>
           calls (snd (generate_speech cfg w t v m f s op st)) = calls (snd (api_attempts cfg w rq 0 st)) \<and>
           filter is_timeline (trace (snd (generate_speech cfg w t v m f s op st))) =
             filter is_timeline (trace (snd (api_attempts cfg w rq 0 st)))"
  proof -
    assume "fst (api_attempts cfg w rq 0 st) = Inr audio"
    with api have x: "x = Inr audio" by simp
    show ?thesis
    proof (cases "or_str op [] \<noteq> []")
      case False
      with v ready api x show ?thesis
        by (simp add: generate_speech_def call_openai_api_def Let_def)
    next
      case True
      with op obtain p where p: "op = Some p" "path_parts p \<noteq> []" "or_str op [] = p"
        by (auto simp: or_str_def split: if_splits)
      from fs p(1) have fs': "fs_error w = (\<lambda>p. None)" by simp
      from save_audio_file_ok[OF fs' p(2), of audio "AudioFormat_value (req_format rq)" st1]
      obtain saved where "save_audio_file w audio p (AudioFormat_value (req_format rq)) st1 =
         (Inr saved, emit (FileWrite saved audio) st1)" by blast
      with v ready api x True p show ?thesis
        by (simp add: generate_speech_def call_openai_api_def Let_def)
    qed
  qed
qed

lemma item_schedule_step:
  "item_schedule rq d M k a (Suc n) =
     Attempt a #
     (if k < M then api_schedule rq d 0 (Suc k)
      else api_schedule rq d 0 M @
           (if n = 0 then [] else Sleep (real (a + 1)) # item_schedule rq d M (k - M) (Suc a) n))"
  by (simp add: max_def)

lemma item_run:
  fixes cfg w rq call l k
  defines "M \<equiv> Suc (max_retries cfg)"
  assumes call_ok: "\<And>st audio. fst (api_attempts cfg w rq 0 st) = Inr audio \<Longrightarrow>
           (\<exists>r. fst (call st) = Inr r \<and> success r) \<and>
           calls (snd (call st)) = calls (snd (api_attempts cfg w rq 0 st)) \<and>
           filter is_timeline (trace (snd (call st))) =
             filter is_timeline (trace (snd (api_attempts cfg w rq 0 st)))"
    and call_err: "\<And>st msg a b. fst (api_attempts cfg w rq 0 st) = Inl (TTSAPIError msg a b) \<Longrightarrow>
           call st = (Inl (TTSAPIError msg a b), snd (api_attempts cfg w rq 0 st))"
    and fails: "\<And>n. n < k \<Longrightarrow> \<exists>e. client_call w n rq = Inl e"
    and succ: "k < Suc l * M \<Longrightarrow> \<exists>audio. client_call w k rq = Inr audio"
  shows "a \<le> l \<Longrightarrow> calls st = a * M \<Longrightarrow> a * M \<le> k \<Longrightarrow>
     filter is_timeline (trace (snd (process_attempts call (int l) [a..<Suc l] st))) =
       filter is_timeline (trace st) @
       item_schedule rq (rate_limit_delay cfg) M (k - a * M) a (Suc l - a) \<and>
     (k < Suc l * M \<longrightarrow>
        success (fst (process_attempts call (int l) [a..<Suc l] st)) \<and>
        calls (snd (process_attempts call (int l) [a..<Suc l] st)) = Suc k) \<and>
     (Suc l * M \<le> k \<longrightarrow>
        calls (snd (process_attempts call (int l) [a..<Suc l] st)) = Suc l * M \<and>
        (\<exists>e. client_call w (Suc l * M - 1) rq = Inl e \<and>
             fst (process_attempts call (int l) [a..<Suc l] st) =
               failed_response
                 (''Failed after '' @ str_int (int l + 1) @ '' attempts: '' @
                  str_exn (TTSAPIError (''API call failed after '' @ str_nat M @
                                        '' attempts: '' @ str_exn e) None None))))"
proof (induction "l - a" arbitrary: a st)
  case 0
  then have al: "a = l" by simp
  let ?st0 = "emit (Attempt a) st"
  have c0: "calls ?st0 = a * M" using 0 by simp
  have t0: "filter is_timeline (trace ?st0) = filter is_timeline (trace st) @ [Attempt a]"
    by simp
  have list: "[a..<Suc l] = [a]" using al by simp
  have sl: "Suc l - a = Suc 0" using al by simp
  show ?case
  proof (cases "k - a * M < M")
    case True
    then have klt: "k < Suc l * M" using al 0 by (simp add: M_def)
    from succ[OF klt] obtain audio where ok: "client_call w k rq = Inr audio" by blast
    have "k - calls ?st0 \<le> max_retries cfg - 0" using True c0 by (simp add: M_def)
    from api_attempts_success[of k w rq audio ?st0 cfg 0, OF fails ok _ this] c0 0
    have api: "fst (api_attempts cfg w rq 0 ?st0) = Inr audio"
      "calls (snd (api_attempts cfg w rq 0 ?st0)) = Suc k"
      "filter is_timeline (trace (snd (api_attempts cfg w rq 0 ?st0))) =
         filter is_timeline (trace ?st0) @ api_schedule rq (rate_limit_delay cfg) 0 (Suc (k - a * M))"
      by simp_all
    from call_ok[OF api(1)] api obtain r where
      r: "fst (call ?st0) = Inr r" "success r" "calls (snd (call ?st0)) = Suc k"
      "filter is_timeline (trace (snd (call ?st0))) =
         filter is_timeline (trace ?st0) @ api_schedule rq (rate_limit_delay cfg) 0 (Suc (k - a * M))"
      by auto
    obtain st2 where c: "call ?st0 = (Inr r, st2)" using r(1) by (cases "call ?st0") auto
    have R: "process_attempts call (int l) [a..<Suc l] st = (r, st2)"
      unfolding list using c r(2) by simp
    show ?thesis
      unfolding R sl item_schedule_step using r c t0 True klt by simp
  next
    case False
    then have kge: "Suc l * M \<le> k" using al 0 by (simp add: M_def)
    have "calls ?st0 + (max_retries cfg - 0) < k" using False c0 0 by (simp add: M_def)
    from api_attempts_exhausted[of k w rq 0 cfg ?st0, OF fails _ this] c0
    obtain e where
      e: "client_call w (a * M + max_retries cfg) rq = Inl e"
      and api: "fst (api_attempts cfg w rq 0 ?st0) =
                Inl (TTSAPIError (''API call failed after '' @ str_nat (max_retries cfg + 1) @
                                  '' attempts: '' @ str_exn e) None None)"
      "calls (snd (api_attempts cfg w rq 0 ?st0)) = a * M + max_retries cfg + 1"
      "filter is_timeline (trace (snd (api_attempts cfg w rq 0 ?st0))) =
           filter is_timeline (trace ?st0) @
           api_schedule rq (rate_limit_delay cfg) 0 (Suc (max_retries cfg))"
      by auto
    let ?err = "TTSAPIError (''API call failed after '' @ str_nat (max_retries cfg + 1) @
                                  '' attempts: '' @ str_exn e) None None"
    let ?st1 = "snd (api_attempts cfg w rq 0 ?st0)"
    from call_err[OF api(1)] have c: "call ?st0 = (Inl ?err, ?st1)" .
    have R: "process_attempts call (int l) [a..<Suc l] st =
       (failed_response (''Failed after '' @ str_int (int l + 1) @ '' attempts: '' @ str_exn ?err),
        emit (LogError (''Request failed after '' @ str_int (int l + 1) @ '' attempts: '' @ str_exn ?err)) ?st1)"
      unfolding list using c al by simp
    have idx: "Suc l * M - 1 = a * M + max_retries cfg" using al by (simp add: M_def)
    show ?thesis
      unfolding R sl item_schedule_step idx
      using e api t0 False kge al by (simp add: M_def)
  qed
next
  case (Suc n)
  then have lt: "a < l" and n: "n = l - Suc a" and le: "Suc a \<le> l" by auto
  let ?st0 = "emit (Attempt a) st"
  have c0: "calls ?st0 = a * M" using Suc.prems by simp
  have t0: "filter is_timeline (trace ?st0) = filter is_timeline (trace st) @ [Attempt a]"
    by simp
  have list: "[a..<Suc l] = a # [Suc a..<Suc l]" using lt by (simp add: upt_conv_Cons)
  have sl: "Suc l - a = Suc (Suc l - Suc a)" and sn: "Suc l - Suc a \<noteq> 0" using lt by auto
  show ?case
  proof (cases "k - a * M < M")
    case True
    have "Suc a * M \<le> Suc l * M" using lt by (intro mult_le_mono1) simp
    then have "a * M + M \<le> Suc l * M" by simp
    moreover have "k < a * M + M" using True Suc.prems by linarith
    ultimately have klt: "k < Suc l * M" by linarith
    from succ[OF klt] obtain audio where ok: "client_call w k rq = Inr audio" by blast
    have "k - calls ?st0 \<le> max_retries cfg - 0" using True c0 by (simp add: M_def)
    from api_attempts_success[of k w rq audio ?st0 cfg 0, OF fails ok _ this] c0 Suc.prems
    have api: "fst (api_attempts cfg w rq 0 ?st0) = Inr audio"
      "calls (snd (api_attempts cfg w rq 0 ?st0)) = Suc k"
      "filter is_timeline (trace (snd (api_attempts cfg w rq 0 ?st0))) =
         filter is_timeline (trace ?st0) @ api_schedule rq (rate_limit_delay cfg) 0 (Suc (k - a * M))"
      by simp_all
    from call_ok[OF api(1)] api obtain r where
      r: "fst (call ?st0) = Inr r" "success r" "calls (snd (call ?st0)) = Suc k"
      "filter is_timeline (trace (snd (call ?st0))) =
         filter is_timeline (trace ?st0) @ api_schedule rq (rate_limit_delay cfg) 0 (Suc (k - a * M))"
      by auto
    obtain st2 where c: "call ?st0 = (Inr r, st2)" using r(1) by (cases "call ?st0") auto
    have R: "process_attempts call (int l) [a..<Suc l] st = (r, st2)"
      unfolding list using c r(2) by simp
    show ?thesis
      unfolding R sl item_schedule_step using r c t0 True klt by simp
  next
    case False
    then have kge: "Suc a * M \<le> k" using Suc.prems by (simp add: M_def)
    have "calls ?st0 + (max_retries cfg - 0) < k" using False c0 Suc.prems by (simp add: M_def)
    from api_attempts_exhausted[of k w rq 0 cfg ?st0, OF fails _ this] c0
    obtain e where
      api: "fst (api_attempts cfg w rq 0 ?st0) =
                Inl (TTSAPIError (''API call failed after '' @ str_nat (max_retries cfg + 1) @
                                  '' attempts: '' @ str_exn e) None None)"
      "calls (snd (api_attempts cfg w rq 0 ?st0)) = a * M + max_retries cfg + 1"
      "filter is_timeline (trace (snd (api_attempts cfg w rq 0 ?st0))) =
           filter is_timeline (trace ?st0) @
           api_schedule rq (rate_limit_delay cfg) 0 (Suc (max_retries cfg))"
      by auto
    let ?err = "TTSAPIError (''API call failed after '' @ str_nat (max_retries cfg + 1) @
                                  '' attempts: '' @ str_exn e) None None"
    let ?st1 = "snd (api_attempts cfg w rq 0 ?st0)"
    let ?st3 = "emit (Sleep (1.0 * real (a + 1)))
                 (emit (LogWarning (''Request error (attempt '' @ str_nat (a + 1) @
                                    ''), retrying: '' @ str_exn ?err)) ?st1)"
    from call_err[OF api(1)] have c: "call ?st0 = (Inl ?err, ?st1)" .
    have R: "process_attempts call (int l) [a..<Suc l] st =
             process_attempts call (int l) [Suc a..<Suc l] ?st3"
      unfolding list using c lt by (simp del: upt_Suc)
    have c3: "calls ?st3 = Suc a * M" using api(2) by (simp add: M_def)
    have t3: "filter is_timeline (trace ?st3) =
       filter is_timeline (trace st) @
       (Attempt a # api_schedule rq (rate_limit_delay cfg) 0 M @ [Sleep (real (a + 1))])"
      using api(3) t0 by (simp add: M_def)
    have km: "k - a * M - M = k - Suc a * M" by simp
    note IH = Suc.hyps(1)[OF n le c3 kge]
    have sched: "item_schedule rq (rate_limit_delay cfg) M (k - a * M) a (Suc (Suc l - Suc a)) =
       Attempt a # api_schedule rq (rate_limit_delay cfg) 0 M @
       Sleep (real (a + 1)) #
       item_schedule rq (rate_limit_delay cfg) M (k - Suc a * M) (Suc a) (Suc l - Suc a)"
      unfolding item_schedule_step using False sn by (simp add: add.commute)
    show ?thesis
      unfolding R sl sched using IH t3 by simp
  qed
qed

lemma api_attempts_synth_inv:
  "length (filter is_synthesize (trace st)) = calls st \<Longrightarrow>
   length (filter is_synthesize (trace (snd (api_attempts cfg w rq j st)))) =
     calls (snd (api_attempts cfg w rq j st))"
proof (induction "max_retries cfg - j" arbitrary: j st)
  case 0
  then show ?case
    by (subst (1 2) api_attempts.simps) (simp split: sum.splits)
next
  case (Suc n)
  then have j: "j < max_retries cfg" and n: "n = max_retries cfg - Suc j" by simp_all
  show ?case
  proof (cases "client_call w (calls st) rq")
    case (Inr audio)
    then show ?thesis using Suc.prems
      by (subst (1 2) api_attempts.simps) simp
  next
    case (Inl e)
    let ?st' = "emit (Sleep (rate_limit_delay cfg * real (j + 1)))
                 (emit (LogWarning (''API call failed (attempt '' @ str_nat (j + 1) @
                                    ''), retrying: '' @ str_exn e))
                    (emit (Synthesize rq) (st\<lparr>calls := Suc (calls st)\<rparr>)))"
    have rec: "api_attempts cfg w rq j st = api_attempts cfg w rq (Suc j) ?st'"
      by (subst api_attempts.simps) (simp add: Inl j)
    have "length (filter is_synthesize (trace ?st')) = calls ?st'"
      using Suc.prems by simp
    from Suc.hyps(1)[OF n this] show ?thesis unfolding rec .
  qed
qed

lemma except_synth_inv:
  "length (filter is_synthesize (trace st)) = calls st \<Longrightarrow>
   length (filter is_synthesize (trace (snd (except_generate_speech e st)))) =
     calls (snd (except_generate_speech e st))"
  by (cases e) (auto simp: except_generate_speech_def)

lemma save_synth_inv:
  "length (filter is_synthesize (trace st)) = calls st \<Longrightarrow>
   length (filter is_synthesize (trace (snd (save_audio_file w audio p fmt st)))) =
     calls (snd (save_audio_file w audio p fmt st))"
  by (auto simp: save_audio_file_def write_file_def
           split: sum.splits option.splits prod.splits)

lemma generate_speech_synth_inv:
  assumes P: "length (filter is_synthesize (trace st)) = calls st"
  shows "length (filter is_synthesize (trace (snd (generate_speech cfg w t v m f s op st)))) =
           calls (snd (generate_speech cfg w t v m f s op st))"
proof (cases "TTSRequest_new (request_args cfg t v m f s)")
  case (Inl e)
  then show ?thesis using except_synth_inv[OF P] by (simp add: generate_speech_def)
next
  case (Inr rq)
  obtain x st1 where c: "call_openai_api cfg w rq st = (x, st1)"
    by (cases "call_openai_api cfg w rq st")
  have p1: "length (filter is_synthesize (trace st1)) = calls st1"
    using c P api_attempts_synth_inv[OF P, of cfg w rq 0]
    by (auto simp: call_openai_api_def split: if_splits)
  show ?thesis
  proof (cases x)
    case (Inl e)
    then show ?thesis using Inr c except_synth_inv[OF p1] by (simp add: generate_speech_def)
  next
    case audio: (Inr audio)
    obtain y st2 where sv: "save_audio_file w audio (or_str op []) (AudioFormat_value (req_format rq)) st1 = (y, st2)"
      by (cases "save_audio_file w audio (or_str op []) (AudioFormat_value (req_format rq)) st1")
    have p2: "length (filter is_synthesize (trace st2)) = calls st2"
      using save_synth_inv[OF p1, of w audio "or_str op []" "AudioFormat_value (req_format rq)"] sv by simp
    show ?thesis
      using Inr c audio sv p1 p2 except_synth_inv[OF p2]
      by (cases y) (simp_all add: generate_speech_def Let_def)
  qed
qed

lemma generate_speech_save_fails:
  assumes v: "TTSRequest_new (request_args cfg t v m f s) = Inr rq"
    and ready: "client_ready w"
    and ok: "client_call w (calls st) rq = Inr audio"
    and full: "\<And>p. fs_error w p \<noteq> None"
    and op: "op = Some p" "p \<noteq> []"
  shows "\<exists>r. fst (generate_speech cfg w t v m f s op st) = Inr r \<and> \<not> success r"
    and "calls (snd (generate_speech cfg w t v m f s op st)) = Suc (calls st)"
    and "filter is_timing (trace (snd (generate_speech cfg w t v m f s op st))) =
           filter is_timing (trace st)"
proof -
  let ?st1 = "emit (Synthesize rq) (st\<lparr>calls := Suc (calls st)\<rparr>)"
  have api: "call_openai_api cfg w rq st = (Inr audio, ?st1)"
    using ready ok by (simp add: call_openai_api_def) (subst api_attempts.simps, simp)
  have "\<exists>msg q. save_audio_file w audio p (AudioFormat_value (req_format rq)) ?st1 =
          (Inl (TTSFileError msg q), ?st1)"
  proof (cases "ensure_suffix p (AudioFormat_value (req_format rq))")
    case (Inl e)
    then show ?thesis by (simp add: save_audio_file_def)
  next
    case (Inr saved)
    from full[of saved] obtain msg where "fs_error w saved = Some msg" by auto
    with Inr show ?thesis by (simp add: save_audio_file_def write_file_def)
  qed
  then obtain msg q where sv: "save_audio_file w audio p (AudioFormat_value (req_format rq)) ?st1 =
          (Inl (TTSFileError msg q), ?st1)" by blast
  have g: "generate_speech cfg w t v m f s op st =
     (Inr (failed_response (''Unexpected error: '' @ str_exn (TTSFileError msg q))),
      emit (LogError (''Unexpected error during speech generation: '' @ str_exn (TTSFileError msg q))) ?st1)"
    using v api sv op
    by (simp add: generate_speech_def Let_def or_str_def except_generate_speech_def)
  show "\<exists>r. fst (generate_speech cfg w t v m f s op st) = Inr r \<and> \<not> success r"
    unfolding g by (simp add: failed_response_def)
  show "calls (snd (generate_speech cfg w t v m f s op st)) = Suc (calls st)"
    unfolding g by (simp add: emit_def)
  show "filter is_timing (trace (snd (generate_speech cfg w t v m f s op st))) =
           filter is_timing (trace st)"
    unfolding g by simp
qed

lemma process_attempts_all_failed:
  assumes inc: "\<And>st. calls (snd (call st)) = Suc (calls st)"
    and f: "\<And>st. attempt_failed (fst (call st))"
  shows "a \<le> l \<Longrightarrow> calls st = a \<Longrightarrow>
         \<not> success (fst (process_attempts call (int l) [a..<Suc l] st)) \<and>
         calls (snd (process_attempts call (int l) [a..<Suc l] st)) = Suc l"
proof (induction "l - a" arbitrary: a st)
  case 0
  then have al: "a = l" by simp
  obtain x st1 where c: "call (emit (Attempt a) st) = (x, st1)" by (cases "call (emit (Attempt a) st)")
  from inc[of "emit (Attempt a) st"] c 0 have c1: "calls st1 = Suc l" by (simp add: al)
  from f[of "emit (Attempt a) st"] c have fx: "attempt_failed x" by simp
  then show ?case using c c1 al
    by (cases x) (auto simp: attempt_failed_def failed_response_def)
next
  case (Suc n)
  then have lt: "a < l" and n: "n = l - Suc a" and le: "Suc a \<le> l" by auto
  obtain x st1 where c: "call (emit (Attempt a) st) = (x, st1)" by (cases "call (emit (Attempt a) st)")
  have list: "[a..<Suc l] = a # [Suc a..<Suc l]" using lt by (simp add: upt_conv_Cons)
  from inc[of "emit (Attempt a) st"] c Suc.prems have c1: "calls st1 = Suc a" by simp
  from f[of "emit (Attempt a) st"] c have fx: "attempt_failed x" by simp
  have al: "int a < int l" using lt by simp
  from fx obtain w where rec: "process_attempts call (int l) [a..<Suc l] st =
        process_attempts call (int l) [Suc a..<Suc l] (emit (Sleep (real (a + 1))) (emit (LogWarning w) st1))"
    using c list al by (cases x) (auto simp: attempt_failed_def simp del: upt_Suc)
  from Suc.hyps(1)[OF n le, of "emit (Sleep (real (a + 1))) (emit (LogWarning w) st1)"] c1 rec
  show ?case by simp
qed

lemma path_parts_nonempty: "path_parts p \<noteq> [] \<Longrightarrow> p \<noteq> []"
  by (auto simp: path_parts_empty)

section \<open>The claims\<close>

text \<open>
  C1. For every batch of 1 to 100 requests, \<open>process_batch\<close> returns a response in which
  \<open>successful + failed\<close> equals \<open>total_requests\<close> and the number of results equals
  \<open>total_requests\<close>, which is the number of requests. Constructing a \<open>BatchTTSResponse\<close>
  returns one exactly when both equations hold; otherwise the constructor raises.
\<close>

theorem process_batch_counts_reconcile:
  "(1 \<le> length requests \<and> length requests \<le> 100 \<longrightarrow>
     (\<exists>r. outcome (process_batch w requests od ra) = Inr r \<and>
          successful r + failed r = total_requests r \<and>
          int (length (results r)) = total_requests r \<and>
          total_requests r = int (length requests))) \<and>
   ((\<exists>r. BatchTTSResponse_new t s f res tm errs = Inr r) \<longleftrightarrow> (s + f = t \<and> int (length res) = t))"
proof (intro conjI impI)
  assume sz: "1 \<le> length requests \<and> length requests \<le> 100"
  then have ne: "requests \<noteq> []" and le: "length requests \<le> 100" by auto
  show "\<exists>r. outcome (process_batch w requests od ra) = Inr r \<and>
          successful r + failed r = total_requests r \<and>
          int (length (results r)) = total_requests r \<and>
          total_requests r = int (length requests)"
  proof (cases "prepare_output_directory w od")
    case (Inl e)
    with ne le have "outcome (process_batch_try w requests od ra) = Inl e"
      by (simp add: process_batch_try_mkdir_failed)
    from process_batch_except[OF this] show ?thesis by simp
  next
    case (Inr pr)
    obtain output_dir made where "pr = (output_dir, made)" by (cases pr)
    with Inr ne le process_batch_try_dispatched[of requests w od output_dir made ra]
    obtain a b es where t: "process_batch_try w requests od ra =
           \<lparr>outcome = Inr \<lparr>total_requests = int (length requests), successful = a, failed = b,
                           results = map fst (dispatch w output_dir ra requests),
                           processing_time = end_time w - start_time w, errors = es\<rparr>,
            batch_trace = made,
            item_traces = map (\<lambda>t. trace (snd t)) (dispatch w output_dir ra requests)\<rparr>"
        and ab: "a + b = int (length requests)"
      by auto
    then show ?thesis
      by (simp add: process_batch_def Let_def length_dispatch)
  qed
next
  show "(\<exists>r. BatchTTSResponse_new t s f res tm errs = Inr r) \<longleftrightarrow> (s + f = t \<and> int (length res) = t)"
    by (rule BatchTTSResponse_new_iff)
qed

theorem process_batch_counts_reconcile_witness:
  "1 \<le> length [stub_request, stub_request] \<and> length [stub_request, stub_request] \<le> 100 \<and>
   (\<exists>r. outcome (process_batch (stub_world item_1_fails) [stub_request, stub_request] None 0) = Inr r \<and>
        successful r + failed r = total_requests r \<and>
        int (length (results r)) = total_requests r \<and>
        total_requests r = 2) \<and>
   \<not> (\<exists>r. BatchTTSResponse_new 2 2 1 [] 0 [] = Inr r)"
  using process_batch_counts_reconcile
          [where requests = "[stub_request, stub_request]" and w = "stub_world item_1_fails"
             and od = None and ra = 0 and t = 2 and s = 2 and f = 1 and res = "[]" and tm = 0
             and errs = "[]"]
  by simp

text \<open>
  C2. In a batch that is dispatched (1 to 100 requests, output directory prepared), the
  result at index \<open>i\<close> is the response of \<open>_process_single_request\<close> for the request at
  index \<open>i\<close>; and whatever the finishing times of the items are, \<open>process_batch\<close> gives
  the same.
\<close>

theorem process_batch_index_aligned:
  "(requests \<noteq> [] \<and> length requests \<le> 100 \<and>
    prepare_output_directory w od = Inr (output_dir, made) \<longrightarrow>
      (\<exists>r. outcome (process_batch w requests od ra) = Inr r \<and>
           length (results r) = length requests \<and>
           (\<forall>i<length requests.
              results r ! i =
                fst (process_single_request (agent_for w i) (hash_text w) (requests ! i)
                       output_dir ra init_state)))) \<and>
   process_batch (w\<lparr>finish_time := ft\<rparr>) requests od ra = process_batch w requests od ra"
proof (intro conjI impI)
  assume a: "requests \<noteq> [] \<and> length requests \<le> 100 \<and>
    prepare_output_directory w od = Inr (output_dir, made)"
  with process_batch_try_dispatched[of requests w od output_dir made ra]
  obtain a b es where t: "process_batch_try w requests od ra =
           \<lparr>outcome = Inr \<lparr>total_requests = int (length requests), successful = a, failed = b,
                           results = map fst (dispatch w output_dir ra requests),
                           processing_time = end_time w - start_time w, errors = es\<rparr>,
            batch_trace = made,
            item_traces = map (\<lambda>t. trace (snd t)) (dispatch w output_dir ra requests)\<rparr>"
    by auto
  then show "\<exists>r. outcome (process_batch w requests od ra) = Inr r \<and>
           length (results r) = length requests \<and>
           (\<forall>i<length requests.
              results r ! i =
                fst (process_single_request (agent_for w i) (hash_text w) (requests ! i)
                       output_dir ra init_state))"
    by (simp add: process_batch_def Let_def length_dispatch nth_dispatch)
next
  show "process_batch (w\<lparr>finish_time := ft\<rparr>) requests od ra = process_batch w requests od ra"
    by (rule process_batch_finish_time)
qed

theorem process_batch_index_aligned_witness:
  "[stub_request, blank_request] \<noteq> [] \<and> length [stub_request, blank_request] \<le> 100 \<and>
   prepare_output_directory (stub_world item_1_fails) None = Inr (None, []) \<and>
   (\<exists>r. outcome (process_batch (stub_world item_1_fails) [stub_request, blank_request] None 0) = Inr r \<and>
        length (results r) = length [stub_request, blank_request] \<and>
        results r ! 0 =
          fst (process_single_request (agent_for (stub_world item_1_fails) 0) stub_hash
                 stub_request None 0 init_state) \<and>
        results r ! 1 =
          fst (process_single_request (agent_for (stub_world item_1_fails) 1) stub_hash
                 blank_request None 0 init_state)) \<and>
   process_batch ((stub_world item_1_fails)\<lparr>finish_time := last_first\<rparr>)
     [stub_request, blank_request] None 0 =
   process_batch (stub_world item_1_fails) [stub_request, blank_request] None 0"
proof -
  have h: "prepare_output_directory (stub_world item_1_fails) None = Inr (None, [])"
    by (simp add: prepare_output_directory_def or_str_def)
  have hh: "hash_text (stub_world item_1_fails) = stub_hash"
    by (simp add: stub_world_def)
  from process_batch_index_aligned
         [where requests = "[stub_request, blank_request]" and w = "stub_world item_1_fails"
            and od = None and output_dir = None and made = "[]" and ra = 0 and ft = last_first]
       h hh
  show ?thesis by (auto simp: less_Suc_eq)
qed

text \<open>
  C3, as amended. For an empty list of requests and for more than 100 requests nothing is
  dispatched (no item is executed, no directory is created), and \<open>process_batch\<close> returns
  a response with \<open>successful = 0\<close>, \<open>failed\<close> equal to the number of requests, one failed
  result per request that carries the message of the \<open>TTSValidationError\<close>, and that
  message as the only entry of \<open>errors\<close>; the failure is logged.
\<close>

theorem process_batch_rejects_bad_size:
  "(requests = [] \<longrightarrow>
      process_batch w requests od ra =
        \<lparr>outcome =
           Inr \<lparr>total_requests = 0, successful = 0, failed = 0, results = [],
                processing_time = end_time w - start_time w,
                errors = [''[VALIDATION_ERROR] No requests provided for batch processing'']\<rparr>,
         batch_trace =
           [LogError ''Batch processing failed: [VALIDATION_ERROR] No requests provided for batch processing''],
         item_traces = []\<rparr>) \<and>
   (100 < length requests \<longrightarrow>
      process_batch w requests od ra =
        \<lparr>outcome =
           Inr \<lparr>total_requests = int (length requests), successful = 0,
                failed = int (length requests),
                results = replicate (length requests)
                            (failed_response ''[VALIDATION_ERROR] Maximum 100 requests allowed per batch''),
                processing_time = end_time w - start_time w,
                errors = [''[VALIDATION_ERROR] Maximum 100 requests allowed per batch'']\<rparr>,
         batch_trace =
           [LogError ''Batch processing failed: [VALIDATION_ERROR] Maximum 100 requests allowed per batch''],
         item_traces = []\<rparr>)"
proof (intro conjI impI)
  assume "requests = []"
  then show "process_batch w requests od ra =
        \<lparr>outcome =
           Inr \<lparr>total_requests = 0, successful = 0, failed = 0, results = [],
                processing_time = end_time w - start_time w,
                errors = [''[VALIDATION_ERROR] No requests provided for batch processing'']\<rparr>,
         batch_trace =
           [LogError ''Batch processing failed: [VALIDATION_ERROR] No requests provided for batch processing''],
         item_traces = []\<rparr>"
    by (simp add: process_batch_def process_batch_try_def BatchTTSResponse_new_def validate_counts_def)
next
  assume "100 < length requests"
  then show "process_batch w requests od ra =
        \<lparr>outcome =
           Inr \<lparr>total_requests = int (length requests), successful = 0,
                failed = int (length requests),
                results = replicate (length requests)
                            (failed_response ''[VALIDATION_ERROR] Maximum 100 requests allowed per batch''),
                processing_time = end_time w - start_time w,
                errors = [''[VALIDATION_ERROR] Maximum 100 requests allowed per batch'']\<rparr>,
         batch_trace =
           [LogError ''Batch processing failed: [VALIDATION_ERROR] Maximum 100 requests allowed per batch''],
         item_traces = []\<rparr>"
    by (auto simp: process_batch_def process_batch_try_def BatchTTSResponse_new_def validate_counts_def
          map_replicate_const)
qed

theorem process_batch_rejects_bad_size_witness:
  "100 < length (replicate 101 stub_request) \<and>
   outcome (process_batch (stub_world never_fails) (replicate 101 stub_request) None 3) =
     Inr \<lparr>total_requests = 101, successful = 0, failed = 101,
          results = replicate 101
                      (failed_response ''[VALIDATION_ERROR] Maximum 100 requests allowed per batch''),
          processing_time = 1,
          errors = [''[VALIDATION_ERROR] Maximum 100 requests allowed per batch'']\<rparr> \<and>
   item_traces (process_batch (stub_world never_fails) (replicate 101 stub_request) None 3) = [] \<and>
   item_traces (process_batch (stub_world never_fails) [] None 3) = []"
  using process_batch_rejects_bad_size
          [where requests = "replicate 101 stub_request" and w = "stub_world never_fails"
             and od = None and ra = 3]
        process_batch_rejects_bad_size
          [where requests = "[]" and w = "stub_world never_fails" and od = None and ra = 3]
  by (simp add: stub_world_def)

text \<open>
  The claim C3 as it is written fails: for the empty list the call does not fail with a
  validation error, it returns a response.
\<close>

theorem process_batch_empty_counterexample:
  "outcome (process_batch (stub_world never_fails) [] None 3) =
     Inr \<lparr>total_requests = 0, successful = 0, failed = 0, results = [], processing_time = 1,
          errors = [''[VALIDATION_ERROR] No requests provided for batch processing'']\<rparr>"
  by (simp add: process_batch_def process_batch_try_def BatchTTSResponse_new_def validate_counts_def
        stub_world_def)

text \<open>
  C4, as amended. For an item whose request was built by the constructor of \<open>TTSRequest\<close>,
  with an agent that has its client, no failure to save the file (no output directory, or a
  file system that does not fail), \<open>retry_attempts \<ge> 0\<close>, and a remote service that fails
  the item's first \<open>k\<close> calls and succeeds from then on: every attempt of the item makes up
  to \<open>max_retries + 1\<close> calls of the remote service, so the item ends as a success exactly
  when \<open>k < (retry_attempts + 1) \<times> (max_retries + 1)\<close>; otherwise it ends as a failure
  whose message is \<open>Failed after retry_attempts + 1 attempts:\<close> followed by the
  \<open>TTSAPIError\<close> of the last attempt, which carries the message of the exception of the
  last call. The remote service is called
  \<open>min(k, (retry_attempts + 1) \<times> (max_retries + 1) - 1) + 1\<close> times, which is at most
  \<open>(retry_attempts + 1) \<times> (max_retries + 1)\<close>.
\<close>

theorem retry_until_client_succeeds:
  assumes v: "TTSRequest_new a = Inr request"
    and ready: "client_ready w"
    and fs: "od = None \<or> fs_error w = (\<lambda>p. None)"
    and ra: "0 \<le> ra"
    and fail: "\<forall>n<k. \<exists>e. client_call w n request = Inl e"
    and succ: "\<forall>n\<ge>k. \<exists>audio. client_call w n request = Inr audio"
  shows "(k < (nat ra + 1) * (max_retries cfg + 1) \<longrightarrow>
            success (fst (process_single_request (generate_speech cfg w) h request od ra init_state))) \<and>
         ((nat ra + 1) * (max_retries cfg + 1) \<le> k \<longrightarrow>
            \<not> success (fst (process_single_request (generate_speech cfg w) h request od ra init_state)) \<and>
            (\<exists>e. client_call w ((nat ra + 1) * (max_retries cfg + 1) - 1) request = Inl e \<and>
               error (fst (process_single_request (generate_speech cfg w) h request od ra init_state)) =
                 Some (''Failed after '' @ str_int (ra + 1) @ '' attempts: '' @
                       str_exn (TTSAPIError (''API call failed after '' @ str_nat (max_retries cfg + 1) @
                                             '' attempts: '' @ str_exn e) None None)))) \<and>
         length (filter is_synthesize
                  (trace (snd (process_single_request (generate_speech cfg w) h request od ra init_state)))) =
           Suc (min k ((nat ra + 1) * (max_retries cfg + 1) - 1)) \<and>
         length (filter is_synthesize
                  (trace (snd (process_single_request (generate_speech cfg w) h request od ra init_state)))) \<le>
           (nat ra + 1) * (max_retries cfg + 1)"
proof -
  let ?call = "generate_speech cfg w (req_text request) (Some (Voice_value (req_voice request)))
           (Some (TTSModel_value (req_model request)))
           (Some (AudioFormat_value (req_format request)))
           (Some (req_speed request))
           (item_output_path h request od)"
  let ?l = "nat ra"
  let ?M = "Suc (max_retries cfg)"
  let ?R = "process_attempts ?call (int ?l) [0..<Suc ?l] init_state"
  have v': "TTSRequest_new (request_args cfg (req_text request) (Some (Voice_value (req_voice request)))
          (Some (TTSModel_value (req_model request)))
          (Some (AudioFormat_value (req_format request)))
          (Some (req_speed request))) = Inr request"
    using validated_request_revalidates[OF v, of cfg] by (simp add: revalidate_def)
  have fs': "item_output_path h request od = None \<or> fs_error w = (\<lambda>p. None)"
    using fs by (auto simp: item_output_path_def)
  note item = generate_speech_item[OF v' ready fs' item_output_path_ok[of h request od]]
  have fails: "\<And>n. n < k \<Longrightarrow> \<exists>e. client_call w n request = Inl e" using fail by blast
  have succ': "k < Suc ?l * ?M \<Longrightarrow> \<exists>audio. client_call w k request = Inr audio" using succ by blast
  have run: "filter is_timeline (trace (snd ?R)) =
       filter is_timeline (trace init_state) @
       item_schedule request (rate_limit_delay cfg) ?M (k - 0 * ?M) 0 (Suc ?l - 0) \<and>
     (k < Suc ?l * ?M \<longrightarrow> success (fst ?R) \<and> calls (snd ?R) = Suc k) \<and>
     (Suc ?l * ?M \<le> k \<longrightarrow>
        calls (snd ?R) = Suc ?l * ?M \<and>
        (\<exists>e. client_call w (Suc ?l * ?M - 1) request = Inl e \<and>
             fst ?R =
               failed_response
                 (''Failed after '' @ str_int (int ?l + 1) @ '' attempts: '' @
                  str_exn (TTSAPIError (''API call failed after '' @ str_nat ?M @
                                        '' attempts: '' @ str_exn e) None None))))"
    by (rule item_run[where call = ?call, OF item(1) item(2) fails succ'])
       (simp_all add: init_state_def)
  have inv: "length (filter is_synthesize (trace (snd ?R))) = calls (snd ?R)"
    by (rule process_attempts_invariant[where P = "\<lambda>st. length (filter is_synthesize (trace st)) = calls st"])
       (simp_all add: generate_speech_synth_inv init_state_def)
  have M: "(nat ra + 1) * (max_retries cfg + 1) = Suc ?l * ?M" by simp
  have l: "int ?l + 1 = ra + 1" using ra by simp
  show ?thesis
  proof (cases "k < Suc ?l * ?M")
    case True
    with run inv show ?thesis
      unfolding single_request_unfold[OF ra] M by (simp add: min_def)
  next
    case False
    then have ge: "Suc ?l * ?M \<le> k" by simp
    with run obtain e where e: "client_call w (Suc ?l * ?M - 1) request = Inl e"
      "fst ?R = failed_response
                 (''Failed after '' @ str_int (ra + 1) @ '' attempts: '' @
                  str_exn (TTSAPIError (''API call failed after '' @ str_nat ?M @
                                        '' attempts: '' @ str_exn e) None None))"
      and c: "calls (snd ?R) = Suc ?l * ?M"
      unfolding l by blast
    have mn: "Suc (min k (Suc ?l * ?M - 1)) = Suc ?l * ?M" using ge by (simp add: min_def)
    show ?thesis
      unfolding single_request_unfold[OF ra] M mn
      using False ge e c inv by (auto simp: failed_response_def)
  qed
qed

theorem retry_until_client_succeeds_witness:
  "TTSRequest_new hello_args = Inr stub_request \<and>
   client_ready (stub_env 3) \<and>
   client_call (stub_env 3) 2 stub_request = Inl (OtherException ''Connection error.'') \<and>
   client_call (stub_env 3) 3 stub_request = Inr ''audio'' \<and>
   success (fst (process_single_request (generate_speech quick_config (stub_env 3)) stub_hash
                   stub_request (Some ''out'') 1 init_state)) \<and>
   length (filter is_synthesize
            (trace (snd (process_single_request (generate_speech quick_config (stub_env 3))
                           stub_hash stub_request (Some ''out'') 1 init_state)))) = 4 \<and>
   error (fst (process_single_request (generate_speech quick_config (stub_env 3)) stub_hash
                 stub_request (Some ''out'') 0 init_state)) =
     Some ''Failed after 1 attempts: [API_ERROR] API call failed after 2 attempts: Connection error.'' \<and>
   length (filter is_synthesize
            (trace (snd (process_single_request (generate_speech quick_config (stub_env 3))
                           stub_hash stub_request (Some ''out'') 0 init_state)))) = 2"
proof -
  have v: "TTSRequest_new hello_args = Inr stub_request"
    by code_simp
  have ready: "client_ready (stub_env 3)"
    by (simp add: stub_env_def)
  have fs: "Some ''out'' = None \<or> fs_error (stub_env 3) = (\<lambda>p. None)"
    by (simp add: stub_env_def)
  have fl: "\<forall>n<3. \<exists>e. client_call (stub_env 3) n stub_request = Inl e"
    by (simp add: stub_env_def)
  have sc: "\<forall>n\<ge>3. \<exists>audio. client_call (stub_env 3) n stub_request = Inr audio"
    by (simp add: stub_env_def)
  have mr: "max_retries quick_config = 1"
    by (simp add: quick_config_def)
  have s1: "str_int 1 = ''1''" "str_nat (Suc (Suc 0)) = ''2''"
    by code_simp+
  have e1: "client_call (stub_env 3) 1 stub_request = Inl (OtherException ''Connection error.'')"
    "client_call (stub_env 3) 2 stub_request = Inl (OtherException ''Connection error.'')"
    "client_call (stub_env 3) 3 stub_request = Inr ''audio''"
    by (simp_all add: stub_env_def)
  from retry_until_client_succeeds[OF v ready fs _ fl sc, of 1 quick_config stub_hash]
       retry_until_client_succeeds[OF v ready fs _ fl sc, of 0 quick_config stub_hash]
       v ready s1 e1 mr
  show ?thesis by simp
qed

text \<open>
  The claim C4 as it is written fails: with the default configuration (\<open>max_retries = 3\<close>)
  and no retry allowed, a remote service that fails its first 3 calls gives a success after
  4 calls, although \<open>retry_attempts < k\<close>, and 4 is more than \<open>retry_attempts + 1\<close>; and
  when the file cannot be saved, an item whose remote service never fails ends as a
  failure.
\<close>

theorem retry_bound_counterexample:
  "client_call (stub_env 3) 0 stub_request = Inl (OtherException ''Connection error.'') \<and>
   client_call (stub_env 3) 1 stub_request = Inl (OtherException ''Connection error.'') \<and>
   client_call (stub_env 3) 2 stub_request = Inl (OtherException ''Connection error.'') \<and>
   client_call (stub_env 3) 3 stub_request = Inr ''audio'' \<and>
   success (fst (process_single_request (generate_speech default_config (stub_env 3)) stub_hash
                   stub_request None 0 init_state)) \<and>
   length (filter is_synthesize
            (trace (snd (process_single_request (generate_speech default_config (stub_env 3))
                           stub_hash stub_request None 0 init_state)))) = 4 \<and>
   client_call full_disk_env 0 stub_request = Inr ''audio'' \<and>
   \<not> success (fst (process_single_request (generate_speech default_config full_disk_env) stub_hash
                     stub_request (Some ''out'') 0 init_state))"
  by code_simp

text \<open>
  C5. In a dispatched batch, let the agent raise an exception at every call made for the
  item at index \<open>j\<close>: the batch still returns a response with one result per request, the
  result at \<open>j\<close> is a failure with the message of the exception, and every other result is
  what it is without the exception. An exception that \<open>gather\<close> holds for a task becomes
  the failed result of that task alone: each result of the loop depends only on its own
  index and task.
\<close>

theorem item_failure_is_contained:
  assumes sz: "length requests \<le> 100" and j: "j < length requests"
    and dir: "prepare_output_directory w od = Inr (output_dir, made)"
    and ra: "0 \<le> ra"
    and raising: "\<And>t v m f s op st. fst (ag t v m f s op st) = Inl e"
  shows "(\<exists>r r'. outcome (process_batch w requests od ra) = Inr r \<and>
            outcome (process_batch (w\<lparr>agent_for := (agent_for w)(j := ag)\<rparr>) requests od ra) = Inr r' \<and>
            length (results r') = length requests \<and>
            results r' ! j =
              failed_response (''Failed after '' @ str_int (ra + 1) @ '' attempts: '' @ str_exn e) \<and>
            (\<forall>i<length requests. i \<noteq> j \<longrightarrow> results r' ! i = results r ! i)) \<and>
         snd (snd (snd (process_results 0 ts (0, 0, [], [])))) =
           map (\<lambda>(i, t). outcome_of i t) (enumerate 0 ts)"
proof (intro conjI)
  let ?w' = "w\<lparr>agent_for := (agent_for w)(j := ag)\<rparr>"
  from j have ne: "requests \<noteq> []" by auto
  have "prepare_output_directory ?w' od = prepare_output_directory w od"
    by (simp add: prepare_output_directory_def)
  with dir have dir': "prepare_output_directory ?w' od = Inr (output_dir, made)"
    by simp
  from process_batch_try_dispatched[OF ne sz dir, of ra]
  obtain a b es where t: "process_batch_try w requests od ra =
           \<lparr>outcome = Inr \<lparr>total_requests = int (length requests), successful = a, failed = b,
                           results = map fst (dispatch w output_dir ra requests),
                           processing_time = end_time w - start_time w, errors = es\<rparr>,
            batch_trace = made,
            item_traces = map (\<lambda>t. trace (snd t)) (dispatch w output_dir ra requests)\<rparr>"
    by auto
  from process_batch_try_dispatched[OF ne sz dir', of ra]
  obtain a' b' es' where t': "process_batch_try ?w' requests od ra =
           \<lparr>outcome = Inr \<lparr>total_requests = int (length requests), successful = a', failed = b',
                           results = map fst (dispatch ?w' output_dir ra requests),
                           processing_time = end_time ?w' - start_time ?w', errors = es'\<rparr>,
            batch_trace = made,
            item_traces = map (\<lambda>t. trace (snd t)) (dispatch ?w' output_dir ra requests)\<rparr>"
    by auto
  let ?call = "ag (req_text (requests ! j)) (Some (Voice_value (req_voice (requests ! j))))
           (Some (TTSModel_value (req_model (requests ! j))))
           (Some (AudioFormat_value (req_format (requests ! j))))
           (Some (req_speed (requests ! j)))
           (item_output_path (hash_text w) (requests ! j) output_dir)"
  have "fst (process_attempts ?call (int (nat ra)) [0..<Suc (nat ra)] init_state) =
          final_outcome (int (nat ra)) (Inl e)"
    by (rule process_attempts_constant) (simp_all add: raising attempt_failed_def)
  then have jth: "fst (process_single_request ag (hash_text w) (requests ! j) output_dir ra init_state) =
      failed_response (''Failed after '' @ str_int (ra + 1) @ '' attempts: '' @ str_exn e)"
    unfolding single_request_unfold[OF ra] using ra by (simp add: final_outcome_def)
  show "\<exists>r r'. outcome (process_batch w requests od ra) = Inr r \<and>
            outcome (process_batch ?w' requests od ra) = Inr r' \<and>
            length (results r') = length requests \<and>
            results r' ! j =
              failed_response (''Failed after '' @ str_int (ra + 1) @ '' attempts: '' @ str_exn e) \<and>
            (\<forall>i<length requests. i \<noteq> j \<longrightarrow> results r' ! i = results r ! i)"
    using t t' j jth
    by (simp add: process_batch_def Let_def length_dispatch nth_dispatch)
next
  show "snd (snd (snd (process_results 0 ts (0, 0, [], [])))) =
           map (\<lambda>(i, t). outcome_of i t) (enumerate 0 ts)"
    using process_results_processed[of 0 ts 0 0 "[]" "[]"] by simp
qed

theorem item_failure_is_contained_witness:
  "length [stub_request, stub_request, stub_request] \<le> 100 \<and>
   1 < length [stub_request, stub_request, stub_request] \<and>
   (\<exists>r r'. outcome (process_batch (stub_world never_fails)
                      [stub_request, stub_request, stub_request] None 1) = Inr r \<and>
            outcome (process_batch
                       ((stub_world never_fails)
                          \<lparr>agent_for := (agent_for (stub_world never_fails))(1 := raising_agent)\<rparr>)
                       [stub_request, stub_request, stub_request] None 1) = Inr r' \<and>
            length (results r') = length [stub_request, stub_request, stub_request] \<and>
            results r' ! 1 = failed_response ''Failed after 2 attempts: boom'' \<and>
            results r' ! 0 = results r ! 0 \<and> results r' ! 2 = results r ! 2)"
proof -
  have h: "prepare_output_directory (stub_world never_fails) None = Inr (None, [])"
    by (simp add: prepare_output_directory_def or_str_def)
  have r: "\<And>t v m f s op st. fst (raising_agent t v m f s op st) = Inl (OtherException ''boom'')"
    by (simp add: raising_agent_def)
  have s2: "str_int 2 = ''2''" by code_simp
  from item_failure_is_contained
         [where requests = "[stub_request, stub_request, stub_request]" and j = 1
            and w = "stub_world never_fails" and od = None and output_dir = None and made = "[]"
            and ra = 1 and ag = raising_agent and e = "OtherException ''boom''" and ts = "[]",
          OF _ _ h _ r]
       s2
  show ?thesis by (auto simp: less_Suc_eq numeral_2_eq_2)
qed

text \<open>
  C6, as amended. The request of every item was built by the constructor of \<open>TTSRequest\<close>,
  so the validation that \<open>generate_speech\<close> repeats for it passes: a validation failure
  occurs only where the request is built, before there is a batch, where nothing is retried
  and the remote service is not called. Retries are not only for failures of the remote
  service: every failed attempt is retried. For an item with an output directory whose
  remote service never fails and whose file cannot be saved, with \<open>retry_attempts \<ge> 0\<close>:
  the item ends as a failure after \<open>retry_attempts + 1\<close> attempts with the backoff sleeps
  between them, and the remote service is called once in every attempt,
  \<open>retry_attempts + 1\<close> times.
\<close>

theorem every_failed_attempt_is_retried:
  assumes v: "TTSRequest_new a = Inr request"
    and ready: "client_ready w"
    and ra: "0 \<le> ra"
    and ok: "\<forall>n. \<exists>audio. client_call w n request = Inr audio"
    and full: "\<forall>p. \<exists>m. fs_error w p = Some m"
  shows "revalidate cfg request = Inr request \<and>
         \<not> success (fst (process_single_request (generate_speech cfg w) h request (Some d) ra init_state)) \<and>
         filter is_timing
           (trace (snd (process_single_request (generate_speech cfg w) h request (Some d) ra init_state))) =
           backoff_schedule 0 (nat ra + 1) \<and>
         length (filter is_synthesize
           (trace (snd (process_single_request (generate_speech cfg w) h request (Some d) ra init_state)))) =
           nat ra + 1"
proof -
  let ?call = "generate_speech cfg w (req_text request) (Some (Voice_value (req_voice request)))
           (Some (TTSModel_value (req_model request)))
           (Some (AudioFormat_value (req_format request)))
           (Some (req_speed request))
           (item_output_path h request (Some d))"
  let ?l = "nat ra"
  let ?R = "process_attempts ?call (int ?l) [0..<Suc ?l] init_state"
  have rv: "revalidate cfg request = Inr request"
    by (rule validated_request_revalidates[OF v])
  then have v': "TTSRequest_new (request_args cfg (req_text request) (Some (Voice_value (req_voice request)))
          (Some (TTSModel_value (req_model request)))
          (Some (AudioFormat_value (req_format request)))
          (Some (req_speed request))) = Inr request"
    by (simp add: revalidate_def)
  from item_output_path_ok[of h request "Some d"] obtain p where
    p: "item_output_path h request (Some d) = Some p" "p \<noteq> []"
    by (auto simp: item_output_path_def dest: path_parts_nonempty)
  have full': "\<And>p. fs_error w p \<noteq> None" using full by (metis option.distinct(1))
  have step: "(\<exists>r. fst (?call st) = Inr r \<and> \<not> success r) \<and>
              calls (snd (?call st)) = Suc (calls st) \<and>
              filter is_timing (trace (snd (?call st))) = filter is_timing (trace st)" for st
  proof -
    from ok obtain audio where au: "client_call w (calls st) request = Inr audio" by blast
    from generate_speech_save_fails[OF v' ready au full' p] show ?thesis by blast
  qed
  have f: "attempt_failed (fst (?call st))" for st
    using step[of st] by (auto simp: attempt_failed_def)
  have inc: "calls (snd (?call st)) = Suc (calls st)" for st
    using step[of st] by blast
  have quiet: "filter is_timing (trace (snd (?call st))) = filter is_timing (trace st)" for st
    using step[of st] by blast
  have r1: "\<not> success (fst ?R) \<and> calls (snd ?R) = Suc ?l"
    by (rule process_attempts_all_failed[OF inc f]) (simp_all add: init_state_def)
  have r2: "filter is_timing (trace (snd ?R)) = filter is_timing (trace init_state) @ backoff_schedule 0 (Suc ?l - 0)"
    by (rule process_attempts_all_failed_timing[OF quiet f]) simp
  have inv: "length (filter is_synthesize (trace (snd ?R))) = calls (snd ?R)"
    by (rule process_attempts_invariant[where P = "\<lambda>st. length (filter is_synthesize (trace st)) = calls st"])
       (simp_all add: generate_speech_synth_inv init_state_def)
  show ?thesis
    unfolding single_request_unfold[OF ra]
    using rv r1 r2 inv by (simp add: init_state_def del: backoff_schedule.simps)
qed

theorem every_failed_attempt_is_retried_witness:
  "TTSRequest_new hello_args = Inr stub_request \<and>
   client_ready full_disk_env \<and>
   revalidate default_config stub_request = Inr stub_request \<and>
   \<not> success (fst (process_single_request (generate_speech default_config full_disk_env) stub_hash
                     stub_request (Some ''out'') 2 init_state)) \<and>
   filter is_timing
     (trace (snd (process_single_request (generate_speech default_config full_disk_env) stub_hash
                    stub_request (Some ''out'') 2 init_state))) =
     [Attempt 0, Sleep 1, Attempt 1, Sleep 2, Attempt 2] \<and>
   length (filter is_synthesize
     (trace (snd (process_single_request (generate_speech default_config full_disk_env) stub_hash
                    stub_request (Some ''out'') 2 init_state)))) = 3"
proof -
  have v: "TTSRequest_new hello_args = Inr stub_request"
    by code_simp
  have ready: "client_ready full_disk_env"
    by (simp add: full_disk_env_def stub_env_def)
  have ok: "\<forall>n. \<exists>audio. client_call full_disk_env n stub_request = Inr audio"
    by (simp add: full_disk_env_def stub_env_def)
  have full: "\<forall>p. \<exists>m. fs_error full_disk_env p = Some m"
    by (simp add: full_disk_env_def)
  have s: "backoff_schedule 0 (nat 2 + 1) = [Attempt 0, Sleep 1, Attempt 1, Sleep 2, Attempt 2]"
    by code_simp
  from every_failed_attempt_is_retried[OF v ready _ ok full, of 2 default_config stub_hash "''out''"]
       v ready s
  show ?thesis by (simp del: backoff_schedule.simps)
qed

text \<open>
  The claim C6 as it is written fails: for a request built by the constructor, a remote
  service that never fails and a file that cannot be saved, with one retry allowed, the
  failed attempt is retried and the remote service is called again.
\<close>

theorem file_failure_retry_counterexample:
  "TTSRequest_new hello_args = Inr stub_request \<and>
   client_call full_disk_env 0 stub_request = Inr ''audio'' \<and>
   client_call full_disk_env 1 stub_request = Inr ''audio'' \<and>
   filter is_timeline
     (trace (snd (process_single_request (generate_speech default_config full_disk_env) stub_hash
                    stub_request (Some ''out'') 1 init_state))) =
     [Attempt 0, Synthesize stub_request, Sleep 1, Attempt 1, Synthesize stub_request]"
  by code_simp

text \<open>
  C7, as amended. \<open>TTSRequest\<close> accepts its arguments exactly when the text as given has
  at most 4096 characters and is not empty after trimming, the speed lies in
  \<open>[0.25, 4.0]\<close>, and voice, model and format are values of their enumerations; the
  accepted request holds the trimmed text; every rejection is a \<open>ValidationError\<close> with at
  least one error.
\<close>

theorem TTSRequest_accepted_iff:
  "((\<exists>r. TTSRequest_new a = Inr r) \<longleftrightarrow>
      length (arg_text a) \<le> 4096 \<and> strip (arg_text a) \<noteq> [] \<and>
      0.25 \<le> arg_speed a \<and> arg_speed a \<le> 4.0 \<and>
      arg_voice a \<in> set (map Voice_value all_voices) \<and>
      arg_model a \<in> set (map TTSModel_value all_models) \<and>
      arg_format a \<in> set (map AudioFormat_value all_formats)) \<and>
   (\<forall>r. TTSRequest_new a = Inr r \<longrightarrow>
      req_text r = strip (arg_text a) \<and> req_speed r = arg_speed a \<and>
      Voice_value (req_voice r) = arg_voice a \<and> TTSModel_value (req_model r) = arg_model a \<and>
      AudioFormat_value (req_format r) = arg_format a) \<and>
   (\<forall>e. TTSRequest_new a = Inl e \<longrightarrow> (\<exists>errs. errs \<noteq> [] \<and> e = ValidationError ''TTSRequest'' errs))"
proof (intro conjI allI impI)
  show "(\<exists>r. TTSRequest_new a = Inr r) \<longleftrightarrow>
      length (arg_text a) \<le> 4096 \<and> strip (arg_text a) \<noteq> [] \<and>
      0.25 \<le> arg_speed a \<and> arg_speed a \<le> 4.0 \<and>
      arg_voice a \<in> set (map Voice_value all_voices) \<and>
      arg_model a \<in> set (map TTSModel_value all_models) \<and>
      arg_format a \<in> set (map AudioFormat_value all_formats)"
    (is "?L \<longleftrightarrow> ?R")
  proof
    assume ?L
    then obtain r where "TTSRequest_new a = Inr r" by blast
    then show ?R
      unfolding TTSRequest_new_Inr_iff
      using field_text_iff[of "arg_text a"] field_speed_iff[of "arg_speed a"]
        field_enum_iff[of "''voice''" Voice_value all_voices "arg_voice a"]
        field_enum_iff[of "''model''" TTSModel_value all_models "arg_model a"]
        field_enum_iff[of "''format''" AudioFormat_value all_formats "arg_format a"]
      by auto
  next
    assume ?R
    then obtain t v m f s where
      "field_text (arg_text a) = Inr t"
      "field_enum ''voice'' Voice_value all_voices (arg_voice a) = Inr v"
      "field_enum ''model'' TTSModel_value all_models (arg_model a) = Inr m"
      "field_enum ''format'' AudioFormat_value all_formats (arg_format a) = Inr f"
      "field_speed (arg_speed a) = Inr s"
      using field_text_iff[of "arg_text a"] field_speed_iff[of "arg_speed a"]
        field_enum_iff[of "''voice''" Voice_value all_voices "arg_voice a"]
        field_enum_iff[of "''model''" TTSModel_value all_models "arg_model a"]
        field_enum_iff[of "''format''" AudioFormat_value all_formats "arg_format a"]
      by auto
    then have "TTSRequest_new a = Inr \<lparr>req_text = t, req_voice = v, req_model = m, req_format = f, req_speed = s\<rparr>"
      by (simp add: TTSRequest_new_Inr_iff)
    then show ?L by blast
  qed
next
  fix r assume "TTSRequest_new a = Inr r"
  then show "req_text r = strip (arg_text a)" "req_speed r = arg_speed a"
    "Voice_value (req_voice r) = arg_voice a" "TTSModel_value (req_model r) = arg_model a"
    "AudioFormat_value (req_format r) = arg_format a"
    unfolding TTSRequest_new_Inr_iff
    by (auto dest: field_text_value field_speed_value field_enum_value)
next
  fix e assume "TTSRequest_new a = Inl e"
  then show "\<exists>errs. errs \<noteq> [] \<and> e = ValidationError ''TTSRequest'' errs"
    by (rule TTSRequest_new_Inl_errors)
qed

theorem TTSRequest_accepted_iff_witness:
  "(\<exists>r. TTSRequest_new (stub_args 0.25) = Inr r) \<and>
   (\<exists>r. TTSRequest_new (stub_args 4.0) = Inr r) \<and>
   \<not> (\<exists>r. TTSRequest_new (stub_args 0.1) = Inr r) \<and>
   \<not> (\<exists>r. TTSRequest_new (stub_args 5.0) = Inr r) \<and>
   (\<exists>r. TTSRequest_new (stub_args 0.25) = Inr r \<and> req_text r = ''Hello, world!'')"
proof -
  have s: "strip ''  Hello, world!  '' = ''Hello, world!''" by code_simp
  from TTSRequest_accepted_iff[of "stub_args 0.25"] TTSRequest_accepted_iff[of "stub_args 4.0"]
       TTSRequest_accepted_iff[of "stub_args 0.1"] TTSRequest_accepted_iff[of "stub_args 5.0"] s
  show ?thesis
    by (auto simp: stub_args_def all_voices_def all_models_def all_formats_def)
qed

text \<open>
  The claim C7 as it is written fails: a text of 4096 blanks and one letter has length 1
  after trimming and is rejected, since the bound of 4096 is checked before trimming.
\<close>

theorem TTSRequest_trimmed_length_counterexample:
  "strip (arg_text padded_args) = ''a'' \<and>
   TTSRequest_new padded_args =
     Inl (ValidationError ''TTSRequest''
            [\<lparr>err_loc = ''text'', err_msg = ''ensure this value has at most 4096 characters'',
              err_type = ''value_error.any_str.max_length; limit_value=4096''\<rparr>])"
  by (simp add: padded_args_def strip_def is_space_def dropWhile_append TTSRequest_new_def field_text_def
        field_enum_def enum_lookup_def all_voices_def all_models_def all_formats_def field_speed_def
        validate_speed_def errors_of_def)

text \<open>
  C8, as amended. Under the conditions of C4 the attempts, the calls of the remote service
  and the sleeps of an item are exactly, in this order: for each attempt, its calls up to
  the first success, at most \<open>max_retries + 1\<close> of them, with a sleep of
  \<open>rate_limit_delay \<times> j\<close> after the failed call number \<open>j\<close> of the attempt when a call is
  left in the attempt; after an attempt all of whose calls failed, when an attempt is left,
  a sleep of \<open>1 second \<times> n = max(1 second, 1 second \<times> n)\<close>, with \<open>n\<close> the 1-based
  number of the attempt; no sleep after the last attempt, and none after a success.
\<close>

theorem item_timeline:
  assumes v: "TTSRequest_new a = Inr request"
    and ready: "client_ready w"
    and fs: "od = None \<or> fs_error w = (\<lambda>p. None)"
    and ra: "0 \<le> ra"
    and fail: "\<forall>n<k. \<exists>e. client_call w n request = Inl e"
    and succ: "\<forall>n\<ge>k. \<exists>audio. client_call w n request = Inr audio"
  shows "filter is_timeline
           (trace (snd (process_single_request (generate_speech cfg w) h request od ra init_state))) =
         item_schedule request (rate_limit_delay cfg) (max_retries cfg + 1) k 0 (nat ra + 1)"
proof -
  let ?call = "generate_speech cfg w (req_text request) (Some (Voice_value (req_voice request)))
           (Some (TTSModel_value (req_model request)))
           (Some (AudioFormat_value (req_format request)))
           (Some (req_speed request))
           (item_output_path h request od)"
  let ?l = "nat ra"
  let ?M = "Suc (max_retries cfg)"
  let ?R = "process_attempts ?call (int ?l) [0..<Suc ?l] init_state"
  have v': "TTSRequest_new (request_args cfg (req_text request) (Some (Voice_value (req_voice request)))
          (Some (TTSModel_value (req_model request)))
          (Some (AudioFormat_value (req_format request)))
          (Some (req_speed request))) = Inr request"
    using validated_request_revalidates[OF v, of cfg] by (simp add: revalidate_def)
  have fs': "item_output_path h request od = None \<or> fs_error w = (\<lambda>p. None)"
    using fs by (auto simp: item_output_path_def)
  note item = generate_speech_item[OF v' ready fs' item_output_path_ok[of h request od]]
  have fails: "\<And>n. n < k \<Longrightarrow> \<exists>e. client_call w n request = Inl e" using fail by blast
  have succ': "k < Suc ?l * ?M \<Longrightarrow> \<exists>audio. client_call w k request = Inr audio" using succ by blast
  have run: "filter is_timeline (trace (snd ?R)) =
       filter is_timeline (trace init_state) @
       item_schedule request (rate_limit_delay cfg) ?M (k - 0 * ?M) 0 (Suc ?l - 0) \<and>
     (k < Suc ?l * ?M \<longrightarrow> success (fst ?R) \<and> calls (snd ?R) = Suc k) \<and>
     (Suc ?l * ?M \<le> k \<longrightarrow>
        calls (snd ?R) = Suc ?l * ?M \<and>
        (\<exists>e. client_call w (Suc ?l * ?M - 1) request = Inl e \<and>
             fst ?R =
               failed_response
                 (''Failed after '' @ str_int (int ?l + 1) @ '' attempts: '' @
                  str_exn (TTSAPIError (''API call failed after '' @ str_nat ?M @
                                        '' attempts: '' @ str_exn e) None None))))"
    by (rule item_run[where call = ?call, OF item(1) item(2) fails succ'])
       (simp_all add: init_state_def)
  then have "filter is_timeline (trace (snd ?R)) =
       item_schedule request (rate_limit_delay cfg) ?M k 0 (Suc ?l)"
    by (simp add: init_state_def del: item_schedule.simps)
  then show ?thesis
    unfolding single_request_unfold[OF ra] by (simp del: item_schedule.simps)
qed

theorem item_timeline_witness:
  "TTSRequest_new hello_args = Inr stub_request \<and>
   client_ready (stub_env 3) \<and>
   client_call (stub_env 3) 2 stub_request = Inl (OtherException ''Connection error.'') \<and>
   client_call (stub_env 3) 3 stub_request = Inr ''audio'' \<and>
   filter is_timeline
     (trace (snd (process_single_request (generate_speech quick_config (stub_env 3)) stub_hash
                    stub_request (Some ''out'') 2 init_state))) =
     [Attempt 0, Synthesize stub_request, Sleep 0.5, Synthesize stub_request, Sleep 1,
      Attempt 1, Synthesize stub_request, Sleep 0.5, Synthesize stub_request] \<and>
   filter is_timeline
     (trace (snd (process_single_request (generate_speech quick_config (stub_env 3)) stub_hash
                    stub_request (Some ''out'') 0 init_state))) =
     [Attempt 0, Synthesize stub_request, Sleep 0.5, Synthesize stub_request]"
proof -
  have v: "TTSRequest_new hello_args = Inr stub_request"
    by code_simp
  have ready: "client_ready (stub_env 3)"
    by (simp add: stub_env_def)
  have fs: "Some ''out'' = None \<or> fs_error (stub_env 3) = (\<lambda>p. None)"
    by (simp add: stub_env_def)
  have fl: "\<forall>n<3. \<exists>e. client_call (stub_env 3) n stub_request = Inl e"
    by (simp add: stub_env_def)
  have sc: "\<forall>n\<ge>3. \<exists>audio. client_call (stub_env 3) n stub_request = Inr audio"
    by (simp add: stub_env_def)
  have e1: "client_call (stub_env 3) 2 stub_request = Inl (OtherException ''Connection error.'')"
    "client_call (stub_env 3) 3 stub_request = Inr ''audio''"
    by (simp_all add: stub_env_def)
  have s2: "item_schedule stub_request (rate_limit_delay quick_config) (max_retries quick_config + 1)
              3 0 (nat 2 + 1) =
            [Attempt 0, Synthesize stub_request, Sleep 0.5, Synthesize stub_request, Sleep 1,
             Attempt 1, Synthesize stub_request, Sleep 0.5, Synthesize stub_request]"
    by code_simp
  have s0: "item_schedule stub_request (rate_limit_delay quick_config) (max_retries quick_config + 1)
              3 0 (nat 0 + 1) =
            [Attempt 0, Synthesize stub_request, Sleep 0.5, Synthesize stub_request]"
    by code_simp
  from item_timeline[OF v ready fs _ fl sc, of 2 quick_config stub_hash]
       item_timeline[OF v ready fs _ fl sc, of 0 quick_config stub_hash]
       v ready e1 s2 s0
  show ?thesis by (simp del: item_schedule.simps)
qed

text \<open>
  The claim C8 as it is written fails: with the default configuration, one retry allowed
  and a remote service that always fails, the sleeps between the consecutive calls of the
  remote service are 1, 2, 3, 1, 1, 2 and 3 seconds: the fourth retry follows a sleep of 1
  second, not of 4, and between the two attempts of the item 7 seconds are slept, not 1.
\<close>

theorem backoff_counterexample:
  "filter is_timeline
     (trace (snd (process_single_request (generate_speech default_config (stub_env 8)) stub_hash
                    stub_request None 1 init_state))) =
     [Attempt 0, Synthesize stub_request, Sleep 1, Synthesize stub_request, Sleep 2,
      Synthesize stub_request, Sleep 3, Synthesize stub_request, Sleep 1,
      Attempt 1, Synthesize stub_request, Sleep 1, Synthesize stub_request, Sleep 2,
      Synthesize stub_request, Sleep 3, Synthesize stub_request]"
  by code_simp




text \<open>
  C10. \<open>process_batch\<close> never lets an exception out: it always returns a response. When
  the \<open>try\<close> block raises an exception, the response has \<open>successful = 0\<close>, \<open>failed\<close> and
  \<open>total_requests\<close> equal to the number of requests, one failed result per request with
  the message of the exception, and that message as the only entry of \<open>errors\<close>.
\<close>

theorem process_batch_never_raises:
  "(\<exists>r. outcome (process_batch w requests od ra) = Inr r) \<and>
   (\<forall>e. outcome (process_batch_try w requests od ra) = Inl e \<longrightarrow>
      outcome (process_batch w requests od ra) =
        Inr \<lparr>total_requests = int (length requests), successful = 0, failed = int (length requests),
             results = replicate (length requests) (failed_response (str_exn e)),
             processing_time = end_time w - start_time w, errors = [str_exn e]\<rparr>)"
proof (cases "outcome (process_batch_try w requests od ra)")
  case (Inl e)
  then show ?thesis using process_batch_except[OF Inl] by simp
next
  case (Inr r)
  then show ?thesis using process_batch_pass[OF Inr] by simp
qed

theorem process_batch_never_raises_witness:
  "outcome (process_batch_try readonly_world [stub_request] (Some ''out'') 3) =
     Inl (OtherException ''[Errno 13] Permission denied'') \<and>
   outcome (process_batch readonly_world [stub_request] (Some ''out'') 3) =
     Inr \<lparr>total_requests = 1, successful = 0, failed = 1,
          results = [failed_response ''[Errno 13] Permission denied''],
          processing_time = 1, errors = [''[Errno 13] Permission denied'']\<rparr>"
proof -
  have h: "outcome (process_batch_try readonly_world [stub_request] (Some ''out'') 3) =
     Inl (OtherException ''[Errno 13] Permission denied'')"
    by (simp add: process_batch_try_def prepare_output_directory_def readonly_world_def or_str_def)
  from process_batch_never_raises[of readonly_world "[stub_request]" "Some ''out''" 3] h
  show ?thesis by (simp add: readonly_world_def stub_world_def)
qed

end
